theory Spec2Isabelle
  imports Main "HOL-Library.Multiset"
begin

section \<open>Data model\<close>

text \<open>
  Values held in a table cell, used as partitioning elements and as exclusion entries:
  Python integers (row labels, integer identifiers) and strings (cell-line or drug
  names). On these Python's \<open>==\<close> is structural equality.
\<close>

datatype cell = IntV int | StrV string

text \<open>The exceptions the modelled code paths can raise.\<close>

datatype error =
    AssertionError string
  | AttributeError string
  | NotImplementedError
  | KeyError
  | IndexError
  | ValueError
  | TypeError
  | SyntaxError
  | RuntimeError

text \<open>
  A pandas DataFrame: its column names and its rows, each row carrying its index label.
  A row maps a column name to the cell stored there.
\<close>

type_synonym row = "string \<Rightarrow> cell"

record dataframe =
  columns :: "string list"
  rows :: "(cell \<times> row) list"

text \<open>\<open>df.reset_index(drop=True)\<close>: the index becomes \<open>0 .. n-1\<close>.\<close>

definition reset_index :: "dataframe \<Rightarrow> dataframe" where
  "reset_index df =
     df\<lparr>rows := zip (map (\<lambda>i. IntV (int i)) [0..<length (rows df)]) (map snd (rows df))\<rparr>"

text \<open>\<open>Series.unique()\<close>: the distinct values, in order of first appearance.\<close>

definition unique :: "'a list \<Rightarrow> 'a list" where
  "unique xs = rev (remdups (rev xs))"

text \<open>\<open>df.loc[labels]\<close>: the rows carrying the given labels, in the order of the
  labels; a label that is not in the index raises \<open>KeyError\<close>.\<close>

definition loc :: "dataframe \<Rightarrow> cell list \<Rightarrow> error + dataframe" where
  "loc df labels =
     (if set labels \<subseteq> fst ` set (rows df)
      then Inr (df\<lparr>rows := concat (map (\<lambda>l. filter (\<lambda>r. fst r = l) (rows df)) labels)\<rparr>)
      else Inl KeyError)"

text \<open>
  \<open>df.query(f"{c} in @vals")\<close>: the column name is spliced into the text of a query
  expression. When the name is a plain identifier and a column of the table, the
  expression reads "column \<open>c\<close> holds one of \<open>vals\<close>" and the result is the rows that
  satisfy it, in table order. Any other name (one with a space or a dot, a Python keyword,
  a name that is no column) is read by the library's expression parser as something
  else, which raises or selects by another expression: what the library does then is the
  parameter \<open>engine\<close>.
\<close>

definition identifier_start :: string where
  "identifier_start = ''abcdefghijklmnopqrstuvwxyzABCDEFGHIJKLMNOPQRSTUVWXYZ_''"

definition identifier_char :: string where
  "identifier_char = identifier_start @ ''0123456789''"

definition python_keywords :: "string list" where
  "python_keywords =
     [''False'', ''None'', ''True'', ''and'', ''as'', ''assert'', ''async'', ''await'',
      ''break'', ''class'', ''continue'', ''def'', ''del'', ''elif'', ''else'', ''except'',
      ''finally'', ''for'', ''from'', ''global'', ''if'', ''import'', ''in'', ''is'',
      ''lambda'', ''nonlocal'', ''not'', ''or'', ''pass'', ''raise'', ''return'',
      ''try'', ''while'', ''with'', ''yield'']"

definition plain_identifier :: "string \<Rightarrow> bool" where
  "plain_identifier c \<longleftrightarrow>
     (case c of [] \<Rightarrow> False | ch # _ \<Rightarrow> ch \<in> set identifier_start) \<and>
     list_all (\<lambda>ch. ch \<in> set identifier_char) c \<and> c \<notin> set python_keywords"

type_synonym query_engine = "dataframe \<Rightarrow> string \<Rightarrow> cell list \<Rightarrow> error + dataframe"

definition query_in :: "query_engine \<Rightarrow> dataframe \<Rightarrow> string \<Rightarrow> cell list \<Rightarrow> error + dataframe" where
  "query_in engine df c vals =
     (if plain_identifier c \<and> c \<in> set (columns df)
      then Inr (df\<lparr>rows := filter (\<lambda>r. snd r c \<in> set vals) (rows df)\<rparr>)
      else engine df c vals)"

section \<open>The numpy operations used by the splitter\<close>

text \<open>
  \<open>np.array_split(xs, k)\<close> for an integer \<open>k\<close>: with \<open>n = len(xs)\<close>, the first
  \<open>n mod k\<close> sections have \<open>n div k + 1\<close> entries and the remaining ones \<open>n div k\<close>;
  a section count of zero raises \<open>ValueError\<close>.
\<close>

definition section_sizes :: "nat \<Rightarrow> nat \<Rightarrow> nat list" where
  "section_sizes n k = replicate (n mod k) (n div k + 1) @ replicate (k - n mod k) (n div k)"

fun chop :: "nat list \<Rightarrow> 'a list \<Rightarrow> 'a list list" where
  "chop [] xs = []"
| "chop (m # ms) xs = take m xs # chop ms (drop m xs)"

definition array_split :: "'a list \<Rightarrow> nat \<Rightarrow> error + 'a list list" where
  "array_split xs k =
     (if k = 0 then Inl ValueError else Inr (chop (section_sizes (length xs) k) xs))"

text \<open>\<open>xs[perm]\<close>: fancy indexing; a position outside \<open>xs\<close> raises \<open>IndexError\<close>.\<close>

definition take_at :: "'a list \<Rightarrow> nat list \<Rightarrow> error + 'a list" where
  "take_at xs perm =
     (if \<forall>j \<in> set perm. j < length xs then Inr (map (\<lambda>j. xs ! j) perm) else Inl IndexError)"

text \<open>\<open>np.concatenate(arrays)\<close>: an empty list of arrays raises \<open>ValueError\<close>.\<close>

definition concatenate :: "'a list list \<Rightarrow> error + 'a list" where
  "concatenate xss = (if xss = [] then Inl ValueError else Inr (concat xss))"

text \<open>
  The random generator is the library's, not the repository's, and is a parameter of the
  model. A seed is whatever the caller passes: an integer or a sequence.
  \<open>np.random.default_rng(seed)\<close> either rejects the seed or yields a generator; a
  generator is read as the stream of its draws: \<open>g j n\<close> is what the call number \<open>j\<close>
  (counted from 0) of \<open>rng.permutation(n)\<close> returns on a freshly seeded generator whose
  earlier calls all had the same argument \<open>n\<close>.
\<close>

datatype seed_arg = SeedInt int | SeedSeq "cell list"

type_synonym generator = "nat \<Rightarrow> nat \<Rightarrow> nat list"

type_synonym rng_factory = "seed_arg \<Rightarrow> error + generator"

text \<open>The library's contract: every draw of \<open>permutation(n)\<close> is a permutation of
  \<open>0 .. n-1\<close>.\<close>

definition permutation_contract :: "rng_factory \<Rightarrow> bool" where
  "permutation_contract default_rng \<longleftrightarrow>
     (\<forall>sd g j n. default_rng sd = Inr g \<longrightarrow> mset (g j n) = mset [0..<n])"

section \<open>Splitter\<close>

text \<open>
  The attributes of a \<open>Splitter\<close> object. \<open>fitted\<close>, \<open>splits\<close>, \<open>test_folds\<close> and
  \<open>val_folds\<close> are not assigned by \<open>__init__\<close>: \<open>None\<close> stands for an attribute the
  object does not have yet, and reading it raises \<open>AttributeError\<close>.
\<close>

record splitter =
  partition_column :: "string option"
  fold_count :: nat
  seed :: seed_arg
  exclude_from_test :: "cell list"
  data :: dataframe
  elements :: "cell list"
  partitioned :: bool
  fitted :: "bool option"
  splits :: "cell list list option"
  test_folds :: "nat list option"
  val_folds :: "nat list option"

definition default_k :: nat where
  "default_k = 25"

definition default_seed :: seed_arg where
  "default_seed = SeedInt 3558"

definition default_exclude_from_test :: "cell list" where
  "default_exclude_from_test = []"

text \<open>\<open>Splitter.__init__(data, k, partition_column, seed, exclude_from_test)\<close>.
  Selecting a column the table does not have raises \<open>KeyError\<close>.\<close>

definition Splitter_init ::
  "dataframe \<Rightarrow> nat \<Rightarrow> string option \<Rightarrow> seed_arg \<Rightarrow> cell list \<Rightarrow> error + splitter" where
  "Splitter_init d k pc sd ex =
     (let d' = reset_index d;
          base = \<lparr>partition_column = pc, fold_count = k, seed = sd, exclude_from_test = ex,
                  data = d', elements = [], partitioned = False, fitted = None,
                  splits = None, test_folds = None, val_folds = None\<rparr>
      in case pc of
           None \<Rightarrow> Inr (base\<lparr>elements := map fst (rows d')\<rparr>)
         | Some c \<Rightarrow>
             if c \<in> set (columns d')
             then Inr (base\<lparr>elements := unique (map (\<lambda>r. snd r c) (rows d'))\<rparr>)
             else Inl KeyError)"

text \<open>\<open>Splitter.get_partitions(shuffle)\<close>.\<close>

definition get_partitions :: "rng_factory \<Rightarrow> bool \<Rightarrow> splitter \<Rightarrow> error + splitter" where
  "get_partitions default_rng shuffle s =
     (case default_rng (seed s) of
        Inl e \<Rightarrow> Inl e
      | Inr rng \<Rightarrow>
          (case (if shuffle then take_at (elements s) (rng 0 (length (elements s)))
                 else Inr (elements s)) of
             Inl e \<Rightarrow> Inl e
           | Inr els \<Rightarrow>
               (case array_split els (fold_count s) of
                  Inl e \<Rightarrow> Inl e
                | Inr sp \<Rightarrow> Inr (s\<lparr>splits := Some sp, partitioned := True, fitted := Some True\<rparr>))))"

text \<open>
  The loop of \<open>get_folds\<close>: draw permutations of \<open>0 .. k-1\<close> until one differs from
  \<open>test = arange(k)\<close> at every position. The loop has no bound; \<open>None\<close> is the run that
  never leaves it.
\<close>

definition all_differ :: "nat list \<Rightarrow> nat list \<Rightarrow> bool" where
  "all_differ val test \<longleftrightarrow> list_all (\<lambda>p. fst p \<noteq> snd p) (zip val test)"

partial_function (option) draw_until_valid :: "generator \<Rightarrow> nat \<Rightarrow> nat \<Rightarrow> nat list option" where
  "draw_until_valid rng k j =
     (let val = rng j k
      in if all_differ val [0..<k] then Some val else draw_until_valid rng k (Suc j))"

text \<open>\<open>Splitter.get_folds()\<close>.\<close>

definition get_folds :: "rng_factory \<Rightarrow> splitter \<Rightarrow> (error + splitter) option" where
  "get_folds default_rng s =
     (if \<not> partitioned s then Some (Inl (AssertionError ''The data was not partitioned yet''))
      else case default_rng (seed s) of
             Inl e \<Rightarrow> Some (Inl e)
           | Inr rng \<Rightarrow>
               (case draw_until_valid rng (fold_count s) 0 of
                  None \<Rightarrow> None
                | Some val \<Rightarrow>
                    Some (Inr (s\<lparr>test_folds := Some [0..<fold_count s], val_folds := Some val\<rparr>))))"

text \<open>\<open>Splitter.fit(shuffle)\<close>.\<close>

definition fit :: "rng_factory \<Rightarrow> bool \<Rightarrow> splitter \<Rightarrow> (error + splitter) option" where
  "fit default_rng shuffle s =
     (case get_partitions default_rng shuffle s of
        Inl e \<Rightarrow> Some (Inl e)
      | Inr s' \<Rightarrow> get_folds default_rng s')"

text \<open>Sequencing of steps that may raise: the first exception ends the run.\<close>

fun and_then :: "error + 'a \<Rightarrow> ('a \<Rightarrow> error + 'b) \<Rightarrow> error + 'b" where
  "and_then (Inl e) f = Inl e"
| "and_then (Inr x) f = f x"

text \<open>Reading an attribute the object may not have, and indexing a list.\<close>

definition attr :: "string \<Rightarrow> 'a option \<Rightarrow> error + 'a" where
  "attr name v = (case v of None \<Rightarrow> Inl (AttributeError name) | Some x \<Rightarrow> Inr x)"

definition item :: "'a list \<Rightarrow> nat \<Rightarrow> error + 'a" where
  "item xs i = (if i < length xs then Inr (xs ! i) else Inl IndexError)"

text \<open>
  The comprehension \<open>[i for i in range(k) if i != val_folds[idx] and i != test_folds[idx]]\<close>.
  The condition is evaluated for each \<open>i\<close>, left to right; \<open>and\<close> reads \<open>test_folds\<close> only
  when the first comparison holds.
\<close>

fun train_folds :: "splitter \<Rightarrow> nat \<Rightarrow> nat list \<Rightarrow> error + nat list" where
  "train_folds s idx [] = Inr []"
| "train_folds s idx (i # is) =
     and_then (attr ''val_folds'' (val_folds s)) (\<lambda>vf.
     and_then (item vf idx) (\<lambda>v.
     and_then (if i \<noteq> v
               then and_then (attr ''test_folds'' (test_folds s)) (\<lambda>tf.
                    and_then (item tf idx) (\<lambda>t. Inr (i \<noteq> t)))
               else Inr False) (\<lambda>keep.
     and_then (train_folds s idx is) (\<lambda>rest.
       Inr (if keep then i # rest else rest)))))"

text \<open>The comprehension \<open>[self.splits[f] for f in train_folds]\<close>.\<close>

fun gather :: "splitter \<Rightarrow> nat list \<Rightarrow> error + cell list list" where
  "gather s [] = Inr []"
| "gather s (f # fs) =
     and_then (attr ''splits'' (splits s)) (\<lambda>sp.
     and_then (item sp f) (\<lambda>fold.
     and_then (gather s fs) (\<lambda>rest. Inr (fold # rest))))"

text \<open>\<open>Splitter.__getitem__(idx)\<close>: the train, validation and test tables of run \<open>idx\<close>.\<close>

definition getitem ::
  "query_engine \<Rightarrow> splitter \<Rightarrow> nat \<Rightarrow> error + dataframe \<times> dataframe \<times> dataframe" where
  "getitem engine s idx =
     (case fitted s of
        None \<Rightarrow> Inl (AttributeError ''fitted'')
      | Some False \<Rightarrow>
          Inl (AssertionError ''You are trying to get splits before fitting the splitter'')
      | Some True \<Rightarrow>
          and_then (train_folds s idx [0..<fold_count s]) (\<lambda>tfs.
          and_then (gather s tfs) (\<lambda>arrays.
          and_then (concatenate arrays) (\<lambda>training_idx.
          and_then (attr ''splits'' (splits s)) (\<lambda>sp.
          and_then (attr ''val_folds'' (val_folds s)) (\<lambda>vf.
          and_then (item vf idx) (\<lambda>v.
          and_then (item sp v) (\<lambda>val_idx.
          and_then (attr ''test_folds'' (test_folds s)) (\<lambda>tf.
          and_then (item tf idx) (\<lambda>t.
          and_then (item sp t) (\<lambda>test_fold.
            let test_idx = filter (\<lambda>el. el \<notin> set (exclude_from_test s)) test_fold
            in case partition_column s of
                 None \<Rightarrow>
                   and_then (loc (data s) training_idx) (\<lambda>train.
                   and_then (loc (data s) val_idx) (\<lambda>val.
                   and_then (loc (data s) test_idx) (\<lambda>test. Inr (train, val, test))))
               | Some c \<Rightarrow>
                   and_then (query_in engine (data s) c training_idx) (\<lambda>train.
                   and_then (query_in engine (data s) c val_idx) (\<lambda>val.
                   and_then (query_in engine (data s) c test_idx) (\<lambda>test.
                     Inr (train, val, test)))))))))))))))"

text \<open>The elements a returned table holds: the row labels when there is no grouping
  column, the values of the grouping column otherwise.\<close>

definition elements_of :: "splitter \<Rightarrow> dataframe \<Rightarrow> cell set" where
  "elements_of s df =
     (case partition_column s of
        None \<Rightarrow> fst ` set (rows df)
      | Some c \<Rightarrow> (\<lambda>r. snd r c) ` set (rows df))"

section \<open>Target pipelines\<close>

text \<open>
  \<open>TargetPipeline\<close> and its two subclasses. The scaler of scikit-learn, the logarithm and
  the offset are floating-point library code: the scaler state is an abstract type \<open>'m\<close> and
  fitting and applying it are parameters.
  \<open>TargetPipeline.__init__\<close> assigns \<open>fitted = False\<close>. The subclasses call
  \<open>super(LogMinMaxScaling).__init__()\<close>, which initialises the unbound \<open>super\<close> object
  itself and does not run \<open>TargetPipeline.__init__\<close>: a new subclass object has no
  attribute \<open>fitted\<close>.
\<close>

datatype pipeline_class = TargetPipeline | LogMinMaxScaling | MinMaxScaling

record 'm target_pipeline =
  cls :: pipeline_class
  tp_fitted :: "bool option"
  minmax :: "'m option"

record 'm scaler_ops =
  scaler_fit :: "pipeline_class \<Rightarrow> 'm \<Rightarrow> dataframe \<Rightarrow> error + 'm"
  scaler_transform :: "pipeline_class \<Rightarrow> 'm \<Rightarrow> dataframe \<Rightarrow> error + dataframe"

definition TargetPipeline_init :: "'m target_pipeline" where
  "TargetPipeline_init = \<lparr>cls = TargetPipeline, tp_fitted = Some False, minmax = None\<rparr>"

definition LogMinMaxScaling_init :: "'m \<Rightarrow> 'm target_pipeline" where
  "LogMinMaxScaling_init m = \<lparr>cls = LogMinMaxScaling, tp_fitted = None, minmax = Some m\<rparr>"

definition MinMaxScaling_init :: "'m \<Rightarrow> 'm target_pipeline" where
  "MinMaxScaling_init m = \<lparr>cls = MinMaxScaling, tp_fitted = None, minmax = Some m\<rparr>"

text \<open>\<open>fit\<close> and \<open>__call__\<close>: the base class raises, the subclasses use the scaler.\<close>

definition tp_fit ::
  "'m scaler_ops \<Rightarrow> 'm target_pipeline \<Rightarrow> dataframe \<Rightarrow> error + 'm target_pipeline" where
  "tp_fit ops p x =
     (case cls p of
        TargetPipeline \<Rightarrow> Inl NotImplementedError
      | c \<Rightarrow>
          and_then (attr ''minmax'' (minmax p)) (\<lambda>m.
          and_then (scaler_fit ops c m x) (\<lambda>m'.
            Inr (p\<lparr>minmax := Some m', tp_fitted := Some True\<rparr>))))"

definition tp_call :: "'m scaler_ops \<Rightarrow> 'm target_pipeline \<Rightarrow> dataframe \<Rightarrow> error + dataframe" where
  "tp_call ops p x =
     (case cls p of
        TargetPipeline \<Rightarrow> Inl NotImplementedError
      | c \<Rightarrow> and_then (attr ''minmax'' (minmax p)) (\<lambda>m. scaler_transform ops c m x))"

text \<open>\<open>TargetPipeline.transform(x)\<close>, inherited by the subclasses.\<close>

definition transform :: "'m scaler_ops \<Rightarrow> 'm target_pipeline \<Rightarrow> dataframe \<Rightarrow> error + dataframe" where
  "transform ops p x =
     (case tp_fitted p of
        None \<Rightarrow> Inl (AttributeError ''fitted'')
      | Some False \<Rightarrow>
          Inl (AssertionError ''You are trying to transform data using a non-fitted processor'')
      | Some True \<Rightarrow> tp_call ops p x)"

section \<open>DatasetManager\<close>

text \<open>
  The collaborators are objects of classes the caller supplies; each is the record of
  what its methods return. The featurizer's result is a dictionary from identifier to
  representation, kept as an association list. The file system holds the cache files, a
  map from path to the stored dictionary, and has or has not the directory
  \<open>data/processed\<close> that \<open>torch.save\<close> writes into.
\<close>

record 'rep storage =
  stored :: "string \<rightharpoonup> (cell \<times> 'rep) list"
  directory_exists :: bool

record preprocessing_pipeline =
  preprocess :: "error + dataframe"
  ppl_get_cell_lines :: "error + dataframe"
  ppl_get_drugs :: "error + dataframe"
  ppl_str :: "error + string"

record 'rep drug_featurizer =
  featurize :: "cell list \<Rightarrow> cell list \<Rightarrow> error + (cell \<times> 'rep) list"
  featurizer_str :: "error + string"

record ('m, 'rep) dataset_manager =
  ppl :: preprocessing_pipeline
  dm_drug_featurizer :: "'rep drug_featurizer"
  processed_data :: dataframe
  dm_splitter :: splitter
  target_processor :: "'m target_pipeline"

text \<open>
  \<open>DatasetManager.__init__\<close>. The splitter is built by
  \<open>Splitter(self.processed_data, k, partition_column, exclude_from_test)\<close>: four
  positional arguments, so the fourth lands in \<open>Splitter\<close>'s fourth parameter, \<open>seed\<close>,
  and \<open>Splitter\<close>'s own \<open>exclude_from_test\<close> keeps its default.
\<close>

definition DatasetManager_init ::
  "rng_factory \<Rightarrow> preprocessing_pipeline \<Rightarrow> 'm target_pipeline \<Rightarrow> 'rep drug_featurizer \<Rightarrow>
   nat \<Rightarrow> string option \<Rightarrow> cell list \<Rightarrow> (error + ('m, 'rep) dataset_manager) option" where
  "DatasetManager_init default_rng pipeline target feat k pc exclude =
     (case preprocess pipeline of
        Inl e \<Rightarrow> Some (Inl e)
      | Inr d \<Rightarrow>
          (case Splitter_init d k pc (SeedSeq exclude) default_exclude_from_test of
             Inl e \<Rightarrow> Some (Inl e)
           | Inr s \<Rightarrow>
               (case fit default_rng True s of
                  None \<Rightarrow> None
                | Some (Inl e) \<Rightarrow> Some (Inl e)
                | Some (Inr s') \<Rightarrow>
                    Some (Inr \<lparr>ppl = pipeline, dm_drug_featurizer = feat, processed_data = d,
                               dm_splitter = s', target_processor = target\<rparr>))))"

text \<open>\<open>DatasetManager.get_partition(idx)\<close>; the fitted processor is kept in the manager.\<close>

definition get_partition ::
  "query_engine \<Rightarrow> 'm scaler_ops \<Rightarrow> ('m, 'rep) dataset_manager \<Rightarrow> nat \<Rightarrow>
   error + (dataframe \<times> dataframe \<times> dataframe) \<times> ('m, 'rep) dataset_manager" where
  "get_partition engine ops m idx =
     and_then (getitem engine (dm_splitter m) idx) (\<lambda>(train, val, test).
     and_then (tp_fit ops (target_processor m) train) (\<lambda>p.
     and_then (transform ops p train) (\<lambda>a.
     and_then (transform ops p test) (\<lambda>b.
     and_then (transform ops p val) (\<lambda>c.
       Inr ((a, b, c), m\<lparr>target_processor := p\<rparr>))))))"

text \<open>
  \<open>DatasetManager.get_drugs()\<close>. A warning does not end the run: the result carries the
  dictionary, the file system afterwards and the warnings issued. \<open>torch.save\<close> creates
  no directory: it raises when \<open>data/processed\<close> does not exist.
\<close>

datatype warning = RuntimeWarning "cell set"

definition first_column :: "dataframe \<Rightarrow> error + cell list" where
  "first_column df =
     (case columns df of [] \<Rightarrow> Inl IndexError | c # _ \<Rightarrow> Inr (map (\<lambda>r. snd r c) (rows df)))"

definition torch_save ::
  "(cell \<times> 'rep) list \<Rightarrow> string \<Rightarrow> 'rep storage \<Rightarrow> error + 'rep storage" where
  "torch_save obj path fs =
     (if directory_exists fs then Inr (fs\<lparr>stored := (stored fs)(path \<mapsto> obj)\<rparr>)
      else Inl RuntimeError)"

definition get_drugs ::
  "('m, 'rep) dataset_manager \<Rightarrow> 'rep storage \<Rightarrow>
   error + (cell \<times> 'rep) list \<times> 'rep storage \<times> warning list" where
  "get_drugs m fs =
     and_then (ppl_get_drugs (ppl m)) (\<lambda>smiles.
     and_then (ppl_str (ppl m)) (\<lambda>ps.
     and_then (featurizer_str (dm_drug_featurizer m)) (\<lambda>fstr.
       let path_cache = ''data/processed/'' @ ps @ ''_'' @ fstr @ ''.pt''
       in and_then
            (case stored fs path_cache of
               Some cached \<Rightarrow> Inr (cached, fs)
             | None \<Rightarrow>
                 and_then (first_column smiles) (\<lambda>smiles_list.
                 and_then (featurize (dm_drug_featurizer m) smiles_list (map fst (rows smiles)))
                   (\<lambda>computed.
                 and_then (torch_save computed path_cache fs) (\<lambda>fs'.
                   Inr (computed, fs')))))
            (\<lambda>(drug_dict, fs').
               let featurized_drugs = set (map fst drug_dict);
                   input_drugs = set (map fst (rows smiles));
                   diff_drugs = featurized_drugs - input_drugs
               in Inr (drug_dict, fs',
                       if diff_drugs \<noteq> {} then [RuntimeWarning diff_drugs] else [])))))"

section \<open>Concrete inputs\<close>

text \<open>
  A stand-in for the library generator that meets its contract: draw number \<open>j\<close> of
  \<open>permutation(n)\<close> is \<open>0 .. n-1\<close> rotated by \<open>j\<close>. It accepts every seed.
\<close>

definition rotating_generator :: generator where
  "rotating_generator j n = rotate j [0..<n]"

definition rotating_rng :: rng_factory where
  "rotating_rng sd = Inr rotating_generator"

text \<open>A stand-in for the library's reading of a query text that is no plain column
  reference: it rejects it.\<close>

definition rejecting_engine :: query_engine where
  "rejecting_engine df c vals = Inl SyntaxError"

text \<open>A table of five rows over three cell lines.\<close>

definition toy_row :: "string \<Rightarrow> int \<Rightarrow> row" where
  "toy_row c d = (\<lambda>name. if name = ''CELL_ID'' then StrV c else IntV d)"

definition toy_table :: dataframe where
  "toy_table =
     \<lparr>columns = [''CELL_ID'', ''DRUG_ID''],
      rows = [(IntV 10, toy_row ''A'' 1), (IntV 11, toy_row ''A'' 2), (IntV 12, toy_row ''B'' 1),
              (IntV 13, toy_row ''C'' 1), (IntV 14, toy_row ''C'' 2)]\<rparr>"

text \<open>
  The splitters \<open>Splitter(toy_table, k=3, exclude_from_test=[0])\<close>, partitioning by row, and
  \<open>Splitter(toy_table, k=3, partition_column="CELL_ID", exclude_from_test=["A"])\<close>,
  partitioning by cell line, as \<open>__init__\<close> leaves them.
\<close>

definition by_row :: splitter where
  "by_row =
     \<lparr>partition_column = None, fold_count = 3, seed = default_seed,
      exclude_from_test = [IntV 0], data = reset_index toy_table,
      elements = [IntV 0, IntV 1, IntV 2, IntV 3, IntV 4],
      partitioned = False, fitted = None, splits = None, test_folds = None, val_folds = None\<rparr>"


text \<open>The same by-row splitter asked for no fold at all, \<open>k=0\<close>.\<close>

definition no_folds :: splitter where
  "no_folds = by_row\<lparr>fold_count := 0\<rparr>"

text \<open>The by-row splitter after \<open>get_partitions()\<close> with the stand-in generator.\<close>

definition by_row_partitioned :: splitter where
  "by_row_partitioned =
     by_row\<lparr>splits := Some [[IntV 0, IntV 1], [IntV 2, IntV 3], [IntV 4]],
            partitioned := True, fitted := Some True\<rparr>"

text \<open>The by-row splitter asked for a single fold, \<open>k=1\<close>, before and after
  \<open>get_partitions()\<close>.\<close>

definition one_fold :: splitter where
  "one_fold = by_row\<lparr>fold_count := 1\<rparr>"

definition one_fold_partitioned :: splitter where
  "one_fold_partitioned =
     one_fold\<lparr>splits := Some [[IntV 0, IntV 1, IntV 2, IntV 3, IntV 4]],
              partitioned := True, fitted := Some True\<rparr>"

section \<open>The fitted state\<close>

text \<open>
  What \<open>__init__\<close> followed by \<open>fit()\<close> establishes, with the folds \<open>sp\<close> and the
  validation assignment \<open>val\<close> named: the proofs about indexing start from here.
\<close>

definition well_fitted :: "splitter \<Rightarrow> cell list list \<Rightarrow> nat list \<Rightarrow> bool" where
  "well_fitted s sp val \<longleftrightarrow>
     fitted s = Some True \<and> splits s = Some sp \<and> val_folds s = Some val \<and>
     test_folds s = Some [0..<fold_count s] \<and> length sp = fold_count s \<and>
     mset val = mset [0..<fold_count s] \<and> (\<forall>i<fold_count s. val ! i \<noteq> i) \<and>
     mset (concat sp) = mset (elements s) \<and> distinct (elements s) \<and>
     set (elements s) = elements_of s (data s) \<and>
     (case partition_column s of None \<Rightarrow> True | Some c \<Rightarrow> c \<in> set (columns (data s)))"

text \<open>The two splitters of the five-row table after \<open>fit()\<close> with the stand-in
  generator: run \<open>r\<close> tests on fold \<open>r\<close> and validates on fold \<open>r + 1\<close> modulo 3.\<close>

definition by_row_fitted :: splitter where
  "by_row_fitted =
     by_row_partitioned\<lparr>test_folds := Some [0, 1, 2], val_folds := Some [1, 2, 0]\<rparr>"


text \<open>The grouping columns whose query text the library reads as a reference to the
  column: partitioning by row issues no query at all.\<close>

definition plain_column :: "string option \<Rightarrow> bool" where
  "plain_column pc \<longleftrightarrow> (case pc of None \<Rightarrow> True | Some c \<Rightarrow> plain_identifier c)"

text \<open>The by-row splitter asked for two folds, \<open>k=2\<close>, as \<open>__init__\<close> leaves it and after
  \<open>fit()\<close> with the stand-in generator.\<close>

definition two_folds :: splitter where
  "two_folds = by_row\<lparr>fold_count := 2\<rparr>"

definition two_folds_fitted :: splitter where
  "two_folds_fitted =
     two_folds\<lparr>splits := Some [[IntV 0, IntV 1, IntV 2], [IntV 3, IntV 4]],
               partitioned := True, fitted := Some True,
               test_folds := Some [0, 1], val_folds := Some [1, 0]\<rparr>"

section \<open>A concrete manager\<close>

text \<open>
  A pipeline whose \<open>preprocess\<close> returns the five-row table and whose \<open>get_drugs\<close>
  returns the SMILES of the drugs 1 and 2, indexed by drug identifier; a featurizer that
  can represent drug 1 only; a stand-in for the scaler that keeps its state and leaves
  the table as it is.
\<close>

definition toy_smiles :: dataframe where
  "toy_smiles =
     \<lparr>columns = [''SMILES''],
      rows = [(IntV 1, \<lambda>name. StrV ''CCO''), (IntV 2, \<lambda>name. StrV ''no smiles'')]\<rparr>"

definition toy_pipeline :: preprocessing_pipeline where
  "toy_pipeline =
     \<lparr>preprocess = Inr toy_table, ppl_get_cell_lines = Inl NotImplementedError,
      ppl_get_drugs = Inr toy_smiles, ppl_str = Inr ''toy''\<rparr>"

definition toy_featurizer :: "nat drug_featurizer" where
  "toy_featurizer =
     \<lparr>featurize = (\<lambda>smiles_list drugs. Inr [(IntV 1, 7)]), featurizer_str = Inr ''fp''\<rparr>"

definition toy_ops :: "unit scaler_ops" where
  "toy_ops = \<lparr>scaler_fit = (\<lambda>c m x. Inr m), scaler_transform = (\<lambda>c m x. Inr x)\<rparr>"

text \<open>
  The manager \<open>DatasetManager(toy_pipeline, MinMaxScaling(), toy_featurizer, k=3,
  exclude_from_test=[0])\<close> with the stand-in generator: its splitter is the fitted by-row
  splitter, but with the list \<open>[0]\<close> as its seed and nothing to exclude.
\<close>

definition managed_splitter :: splitter where
  "managed_splitter = by_row_fitted\<lparr>seed := SeedSeq [IntV 0], exclude_from_test := []\<rparr>"

definition toy_manager :: "(unit, nat) dataset_manager" where
  "toy_manager =
     \<lparr>ppl = toy_pipeline, dm_drug_featurizer = toy_featurizer, processed_data = toy_table,
      dm_splitter = managed_splitter, target_processor = MinMaxScaling_init ()\<rparr>"

text \<open>A file system with the directory and no cache file, and one with a cache file
  left by an earlier run, holding the representations of the drugs 1 and 3.\<close>

definition no_cache :: "nat storage" where
  "no_cache = \<lparr>stored = Map.empty, directory_exists = True\<rparr>"

definition toy_cache :: "nat storage" where
  "toy_cache =
     \<lparr>stored = [''data/processed/toy_fp.pt'' \<mapsto> [(IntV 1, 7), (IntV 3, 9)]],
      directory_exists = True\<rparr>"

section \<open>Properties of the library operations\<close>

lemma length_section_sizes: "0 < k \<Longrightarrow> length (section_sizes n k) = k"
  by (simp add: section_sizes_def less_imp_le)

lemma sum_list_section_sizes: "0 < k \<Longrightarrow> sum_list (section_sizes n k) = n"
proof -
  assume k: "0 < k"
  have "sum_list (section_sizes n k) = (n mod k) * (n div k + 1) + (k - n mod k) * (n div k)"
    by (simp add: section_sizes_def sum_list_replicate)
  also have "\<dots> = n mod k + (n mod k + (k - n mod k)) * (n div k)"
    by (simp add: algebra_simps)
  also have "n mod k + (k - n mod k) = k"
    using k by (simp add: less_imp_le)
  finally show ?thesis by (simp add: mult.commute)
qed

lemma nth_section_sizes:
  "i < k \<Longrightarrow> section_sizes n k ! i = n div k + (if i < n mod k then 1 else 0)"
  by (auto simp: section_sizes_def nth_append)

lemma length_chop: "length (chop ms xs) = length ms"
  by (induction ms arbitrary: xs) auto

lemma concat_chop: "length xs \<le> sum_list ms \<Longrightarrow> concat (chop ms xs) = xs"
  by (induction ms arbitrary: xs) auto

lemma nth_chop_length:
  "sum_list ms \<le> length xs \<Longrightarrow> i < length ms \<Longrightarrow> length (chop ms xs ! i) = ms ! i"
proof (induction ms arbitrary: xs i)
  case Nil
  then show ?case by simp
next
  case (Cons m ms)
  then show ?case by (cases i) auto
qed

lemma array_split_folds:
  assumes "0 < k"
  shows "\<exists>sp. array_split xs k = Inr sp \<and> length sp = k \<and> concat sp = xs \<and>
           (\<forall>i<k. length (sp ! i) = length xs div k + (if i < length xs mod k then 1 else 0))"
  using assms
  by (simp add: array_split_def length_chop length_section_sizes concat_chop
      sum_list_section_sizes nth_chop_length nth_section_sizes)

text \<open>The sections of a list without repetitions share no entry.\<close>

lemma distinct_concat_disjoint:
  "distinct (concat xss) \<Longrightarrow> i < length xss \<Longrightarrow> j < length xss \<Longrightarrow> i \<noteq> j \<Longrightarrow>
   set (xss ! i) \<inter> set (xss ! j) = {}"
proof (induction xss arbitrary: i j)
  case Nil
  then show ?case by simp
next
  case (Cons xs xss)
  show ?case
  proof (cases i)
    case 0
    then obtain j' where "j = Suc j'" "j' < length xss"
      using Cons.prems by (cases j) auto
    then show ?thesis using 0 Cons.prems(1) by fastforce
  next
    case (Suc i')
    show ?thesis
    proof (cases j)
      case 0
      then show ?thesis using Suc Cons.prems by fastforce
    next
      case (Suc j')
      then show ?thesis using \<open>i = Suc i'\<close> Cons.prems Cons.IH[of i' j'] by simp
    qed
  qed
qed

text \<open>Indexing by a permutation of the positions reorders the list.\<close>

lemma take_at_permutation:
  assumes "mset perm = mset [0..<length xs]"
  shows "\<exists>ys. take_at xs perm = Inr ys \<and> mset ys = mset xs"
proof -
  have "set perm = {0..<length xs}"
    using assms by (metis mset_eq_setD set_upt)
  then have ok: "\<forall>j \<in> set perm. j < length xs" by simp
  have "mset (map (\<lambda>j. xs ! j) perm) = image_mset (\<lambda>j. xs ! j) (mset perm)" by simp
  also have "\<dots> = mset (map (\<lambda>j. xs ! j) [0..<length xs])" using assms by simp
  also have "\<dots> = mset xs" by (simp add: map_nth)
  finally show ?thesis using ok by (simp add: take_at_def)
qed

lemma mset_rotate_eq: "mset (rotate j xs) = mset xs"
proof -
  have "mset (rotate j xs) = mset (take (j mod length xs) xs) + mset (drop (j mod length xs) xs)"
    by (simp add: rotate_drop_take)
  also have "\<dots> = mset (take (j mod length xs) xs @ drop (j mod length xs) xs)"
    by (simp only: mset_append)
  finally show ?thesis by (simp only: append_take_drop_id)
qed

lemma rotating_contract: "permutation_contract rotating_rng"
  unfolding permutation_contract_def rotating_rng_def rotating_generator_def
  by (auto simp only: mset_rotate_eq sum.inject)

section \<open>Building the folds\<close>

lemma get_partitions_result:
  assumes contract: "permutation_contract default_rng"
    and seeded: "default_rng (seed s) = Inr g"
    and k: "0 < fold_count s"
  shows "\<exists>sp. get_partitions default_rng shuffle s
               = Inr (s\<lparr>splits := Some sp, partitioned := True, fitted := Some True\<rparr>) \<and>
           length sp = fold_count s \<and> mset (concat sp) = mset (elements s) \<and>
           (\<forall>i<fold_count s. length (sp ! i) =
               length (elements s) div fold_count s +
               (if i < length (elements s) mod fold_count s then 1 else 0))"
proof -
  obtain els where els:
    "(if shuffle then take_at (elements s) (g 0 (length (elements s))) else Inr (elements s))
       = Inr els"
    "mset els = mset (elements s)"
  proof (cases shuffle)
    case True
    have "mset (g 0 (length (elements s))) = mset [0..<length (elements s)]"
      using contract seeded by (simp add: permutation_contract_def)
    from take_at_permutation[OF this] True that show ?thesis by auto
  next
    case False
    with that show ?thesis by simp
  qed
  have len: "length els = length (elements s)"
    using els(2) by (metis size_mset)
  from array_split_folds[OF k, of els] obtain sp where sp:
    "array_split els (fold_count s) = Inr sp" "length sp = fold_count s" "concat sp = els"
    "\<forall>i<fold_count s. length (sp ! i) =
        length els div fold_count s + (if i < length els mod fold_count s then 1 else 0)"
    by blast
  have "get_partitions default_rng shuffle s
          = Inr (s\<lparr>splits := Some sp, partitioned := True, fitted := Some True\<rparr>)"
    unfolding get_partitions_def using seeded els(1) sp(1) by simp
  then show ?thesis using sp els(2) len by auto
qed

text \<open>
  Claim C2, as amended. For a sequence of \<open>n\<close> unique elements, a fold count \<open>k\<close> with
  \<open>1 \<le> k \<le> n\<close>, a seed the generator accepts and either shuffle setting,
  \<open>get_partitions\<close> produces \<open>k\<close> folds whose union is the element set, which are pairwise
  disjoint, whose sizes differ by at most one, and of which the first \<open>n mod k\<close> hold
  \<open>n div k + 1\<close> elements and the others \<open>n div k\<close>.
\<close>

theorem get_partitions_folds:
  assumes "permutation_contract default_rng"
    and "default_rng (seed s) = Inr g"
    and "distinct (elements s)"
    and "1 \<le> fold_count s"
    and "fold_count s \<le> length (elements s)"
  shows "\<exists>sp. get_partitions default_rng shuffle s
               = Inr (s\<lparr>splits := Some sp, partitioned := True, fitted := Some True\<rparr>) \<and>
           length sp = fold_count s \<and>
           \<Union> (set ` set sp) = set (elements s) \<and>
           (\<forall>i<fold_count s. \<forall>j<fold_count s. i \<noteq> j \<longrightarrow> set (sp ! i) \<inter> set (sp ! j) = {}) \<and>
           (\<forall>i<fold_count s. \<forall>j<fold_count s. length (sp ! i) \<le> length (sp ! j) + 1) \<and>
           (\<forall>i<fold_count s. length (sp ! i) =
               length (elements s) div fold_count s +
               (if i < length (elements s) mod fold_count s then 1 else 0))"
proof -
  have k: "0 < fold_count s" using assms(4) by simp
  from get_partitions_result[OF assms(1) assms(2) k, of shuffle] obtain sp where sp:
    "get_partitions default_rng shuffle s
       = Inr (s\<lparr>splits := Some sp, partitioned := True, fitted := Some True\<rparr>)"
    "length sp = fold_count s" "mset (concat sp) = mset (elements s)"
    "\<forall>i<fold_count s. length (sp ! i) =
        length (elements s) div fold_count s +
        (if i < length (elements s) mod fold_count s then 1 else 0)"
    by blast
  have un: "\<Union> (set ` set sp) = set (elements s)"
  proof -
    have "set (concat sp) = set (elements s)" using sp(3) by (rule mset_eq_setD)
    then show ?thesis by simp
  qed
  have "distinct (concat sp)"
    using sp(3) assms(3) by (metis mset_eq_imp_distinct_iff)
  then have dj: "\<forall>i<fold_count s. \<forall>j<fold_count s. i \<noteq> j \<longrightarrow> set (sp ! i) \<inter> set (sp ! j) = {}"
    using distinct_concat_disjoint[of sp] sp(2) by simp
  have sz: "\<forall>i<fold_count s. \<forall>j<fold_count s. length (sp ! i) \<le> length (sp ! j) + 1"
    using sp(4) by simp
  show ?thesis
    apply (rule exI[of _ sp])
    using sp(1,2,4) un dj sz apply (intro conjI)
         apply assumption+
    done
qed

text \<open>The amended claim C2 on the by-row splitter of the five-row table, three folds.\<close>

theorem get_partitions_folds_witness:
  "permutation_contract rotating_rng \<and> rotating_rng (seed by_row) = Inr rotating_generator \<and>
   distinct (elements by_row) \<and> 1 \<le> fold_count by_row \<and>
   fold_count by_row \<le> length (elements by_row) \<and>
   (\<exists>sp. get_partitions rotating_rng True by_row
            = Inr (by_row\<lparr>splits := Some sp, partitioned := True, fitted := Some True\<rparr>) \<and>
          length sp = fold_count by_row \<and>
          \<Union> (set ` set sp) = set (elements by_row) \<and>
          (\<forall>i<fold_count by_row. \<forall>j<fold_count by_row. i \<noteq> j \<longrightarrow>
              set (sp ! i) \<inter> set (sp ! j) = {}) \<and>
          (\<forall>i<fold_count by_row. \<forall>j<fold_count by_row. length (sp ! i) \<le> length (sp ! j) + 1) \<and>
          (\<forall>i<fold_count by_row. length (sp ! i) =
              length (elements by_row) div fold_count by_row +
              (if i < length (elements by_row) mod fold_count by_row then 1 else 0)))"
proof -
  have h1: "permutation_contract rotating_rng" by (rule rotating_contract)
  have h2: "rotating_rng (seed by_row) = Inr rotating_generator" by (simp add: rotating_rng_def)
  have h3: "distinct (elements by_row)" by (simp add: by_row_def)
  have h4: "1 \<le> fold_count by_row" by (simp add: by_row_def)
  have h5: "fold_count by_row \<le> length (elements by_row)" by (simp add: by_row_def)
  from get_partitions_folds[OF h1 h2 h3 h4 h5, of True] h1 h2 h3 h4 h5
  show ?thesis by (intro conjI)
qed

text \<open>
  Claim C2 as stated fails for a fold count of zero, which satisfies \<open>k \<le> n\<close>:
  \<open>array_split\<close> rejects it and \<open>get_partitions\<close> raises instead of producing folds.
\<close>

theorem get_partitions_zero_folds:
  "distinct (elements no_folds) \<and> fold_count no_folds \<le> length (elements no_folds) \<and>
   get_partitions rotating_rng True no_folds = Inl ValueError"
  by (simp add: no_folds_def by_row_def get_partitions_def rotating_rng_def
      rotating_generator_def take_at_def array_split_def)

section \<open>Evaluation on the concrete inputs\<close>

lemma section_sizes_5_3: "section_sizes (length [a, b, c, d, e]) 3 = [2, 2, 1]"
  by code_simp


lemma array_split_5_3: "array_split [a, b, c, d, e] 3 = Inr [[a, b], [c, d], [e]]"
  unfolding array_split_def section_sizes_5_3 by simp


lemma rotating_0: "rotating_generator 0 n = [0..<n]"
  by (simp add: rotating_generator_def)

lemma rotating_1_3: "rotating_generator (Suc 0) 3 = [1, 2, 0]"
  by (simp add: rotating_generator_def numeral_eq_Suc rotate1_def upt_conv_Cons)

lemma take_at_all: "take_at xs [0..<length xs] = Inr xs"
  by (simp add: take_at_def map_nth)

lemma get_partitions_by_row:
  "get_partitions rotating_rng True by_row
     = Inr (by_row\<lparr>splits := Some [[IntV 0, IntV 1], [IntV 2, IntV 3], [IntV 4]],
                   partitioned := True, fitted := Some True\<rparr>)"
proof -
  have "take_at (elements by_row) (rotating_generator 0 (length (elements by_row)))
          = Inr (elements by_row)"
    by (simp only: rotating_0 take_at_all)
  moreover have "array_split (elements by_row) (fold_count by_row)
          = Inr [[IntV 0, IntV 1], [IntV 2, IntV 3], [IntV 4]]"
    by (simp add: by_row_def array_split_5_3)
  ultimately show ?thesis
    by (simp add: get_partitions_def rotating_rng_def)
qed

lemma Splitter_init_by_row:
  "Splitter_init toy_table 3 None default_seed [IntV 0] = Inr by_row"
  by (simp add: Splitter_init_def by_row_def reset_index_def toy_table_def Let_def)


section \<open>Assigning the fold roles\<close>

lemma all_differ_nth:
  "length val = k \<Longrightarrow> all_differ val [0..<k] \<longleftrightarrow> (\<forall>i<k. val ! i \<noteq> i)"
  by (auto simp: all_differ_def list_all_length)

lemma draw_until_valid_finds:
  "all_differ (rng (j + d) k) [0..<k] \<Longrightarrow>
   \<exists>m. draw_until_valid rng k j = Some (rng m k) \<and> all_differ (rng m k) [0..<k]"
proof (induction d arbitrary: j)
  case 0
  then show ?case by (subst draw_until_valid.simps) (auto simp: Let_def)
next
  case (Suc d)
  show ?case
  proof (cases "all_differ (rng j k) [0..<k]")
    case True
    then show ?thesis by (subst draw_until_valid.simps) (auto simp: Let_def)
  next
    case False
    from Suc.prems have "all_differ (rng (Suc j + d) k) [0..<k]" by simp
    from Suc.IH[OF this] obtain m where
      "draw_until_valid rng k (Suc j) = Some (rng m k)" "all_differ (rng m k) [0..<k]"
      by blast
    with False show ?thesis by (subst draw_until_valid.simps) (auto simp: Let_def)
  qed
qed

lemma draw_until_valid_sound:
  assumes "draw_until_valid rng k j = Some val"
  shows "\<exists>m. val = rng m k \<and> all_differ val [0..<k]"
  by (rule draw_until_valid.raw_induct
        [where P = "\<lambda>rng k j val. \<exists>m. val = rng m k \<and> all_differ val [0..<k]", OF _ assms])
     (auto simp: Let_def split: if_splits)

lemma draw_until_valid_never:
  assumes "\<forall>m. \<not> all_differ (rng m k) [0..<k]"
  shows "draw_until_valid rng k j = None"
proof (cases "draw_until_valid rng k j")
  case None
  then show ?thesis .
next
  case (Some val)
  from draw_until_valid_sound[OF this] assms show ?thesis by auto
qed

lemma get_folds_result:
  assumes contract: "permutation_contract default_rng"
    and run: "get_folds default_rng s = Some (Inr s')"
  shows "\<exists>val. s' = s\<lparr>test_folds := Some [0..<fold_count s], val_folds := Some val\<rparr> \<and>
           partitioned s \<and> mset val = mset [0..<fold_count s] \<and>
           (\<forall>i<fold_count s. val ! i \<noteq> i)"
proof -
  from run have p: "partitioned s"
    by (auto simp: get_folds_def split: if_splits)
  from run p obtain g where g: "default_rng (seed s) = Inr g"
    by (auto simp: get_folds_def split: sum.splits)
  from run p g obtain val where val: "draw_until_valid g (fold_count s) 0 = Some val"
    and s': "s' = s\<lparr>test_folds := Some [0..<fold_count s], val_folds := Some val\<rparr>"
    by (auto simp: get_folds_def split: option.splits)
  from draw_until_valid_sound[OF val] obtain m where
    m: "val = g m (fold_count s)" and ad: "all_differ val [0..<fold_count s]"
    by blast
  have ms: "mset val = mset [0..<fold_count s]"
    using contract g m by (simp add: permutation_contract_def)
  then have "length val = fold_count s"
    by (metis length_upt minus_nat.diff_0 size_mset)
  with ad have "\<forall>i<fold_count s. val ! i \<noteq> i"
    by (simp add: all_differ_nth)
  with s' p ms show ?thesis by blast
qed

lemma all_differ_rotating_1_3:
  "all_differ (rotating_generator (Suc 0) 3) [0..<3]"
  by (simp add: rotating_1_3 all_differ_def upt_conv_Cons)

lemma not_all_differ_rotating_0: "0 < k \<Longrightarrow> \<not> all_differ (rotating_generator 0 k) [0..<k]"
  by (cases k) (auto simp: rotating_0 all_differ_def upt_conv_Cons)

text \<open>
  Claim C3. For \<open>k \<ge> 2\<close> and a seed the generator accepts, \<open>get_folds\<close> on a partitioned
  splitter sets \<open>test\<close> to the identity assignment, \<open>test[i] = i\<close>, and \<open>val\<close> to a
  permutation of \<open>0 .. k-1\<close> with \<open>val[i] \<noteq> i\<close> for every \<open>i\<close>. The loop redraws until
  such a permutation comes up, so the statement is about a generator that draws one at
  some point.
\<close>

theorem get_folds_derangement:
  assumes "permutation_contract default_rng"
    and "default_rng (seed s) = Inr g"
    and "partitioned s"
    and "2 \<le> fold_count s"
    and "\<exists>j. all_differ (g j (fold_count s)) [0..<fold_count s]"
  shows "\<exists>test val.
           get_folds default_rng s = Some (Inr (s\<lparr>test_folds := Some test, val_folds := Some val\<rparr>)) \<and>
           length test = fold_count s \<and> (\<forall>i<fold_count s. test ! i = i) \<and>
           mset val = mset [0..<fold_count s] \<and> (\<forall>i<fold_count s. val ! i \<noteq> i)"
proof -
  from assms(5) obtain j where "all_differ (g (0 + j) (fold_count s)) [0..<fold_count s]"
    by auto
  from draw_until_valid_finds[of g 0 j "fold_count s", OF this] obtain m where
    dv: "draw_until_valid g (fold_count s) 0 = Some (g m (fold_count s))"
    and ad: "all_differ (g m (fold_count s)) [0..<fold_count s]"
    by blast
  from dv assms(2,3) have run: "get_folds default_rng s =
      Some (Inr (s\<lparr>test_folds := Some [0..<fold_count s],
                   val_folds := Some (g m (fold_count s))\<rparr>))"
    by (simp add: get_folds_def)
  have ms: "mset (g m (fold_count s)) = mset [0..<fold_count s]"
    using assms(1,2) by (simp add: permutation_contract_def)
  then have "length (g m (fold_count s)) = fold_count s"
    by (metis length_upt minus_nat.diff_0 size_mset)
  with ad have nf: "\<forall>i<fold_count s. g m (fold_count s) ! i \<noteq> i"
    by (simp add: all_differ_nth)
  from run ms nf show ?thesis
    by (intro exI[of _ "[0..<fold_count s]"] exI[of _ "g m (fold_count s)"]) simp
qed

text \<open>Claim C3 on the partitioned by-row splitter with three folds: the stand-in
  generator's first draw is the identity and is rejected, its second is accepted.\<close>

theorem get_folds_derangement_witness:
  "permutation_contract rotating_rng \<and>
   rotating_rng (seed by_row_partitioned) = Inr rotating_generator \<and>
   partitioned by_row_partitioned \<and> 2 \<le> fold_count by_row_partitioned \<and>
   (\<exists>j. all_differ (rotating_generator j (fold_count by_row_partitioned))
          [0..<fold_count by_row_partitioned]) \<and>
   (\<exists>test val.
      get_folds rotating_rng by_row_partitioned
        = Some (Inr (by_row_partitioned\<lparr>test_folds := Some test, val_folds := Some val\<rparr>)) \<and>
      length test = fold_count by_row_partitioned \<and>
      (\<forall>i<fold_count by_row_partitioned. test ! i = i) \<and>
      mset val = mset [0..<fold_count by_row_partitioned] \<and>
      (\<forall>i<fold_count by_row_partitioned. val ! i \<noteq> i))"
proof -
  have k: "fold_count by_row_partitioned = 3"
    by (simp add: by_row_partitioned_def by_row_def)
  have h1: "permutation_contract rotating_rng" by (rule rotating_contract)
  have h2: "rotating_rng (seed by_row_partitioned) = Inr rotating_generator"
    by (simp add: rotating_rng_def)
  have h3: "partitioned by_row_partitioned" by (simp add: by_row_partitioned_def)
  have h4: "2 \<le> fold_count by_row_partitioned" by (simp add: k)
  have h5: "\<exists>j. all_differ (rotating_generator j (fold_count by_row_partitioned))
                  [0..<fold_count by_row_partitioned]"
    unfolding k using all_differ_rotating_1_3 by blast
  from get_folds_derangement[OF h1 h2 h3 h4 h5] h1 h2 h3 h4 h5
  show ?thesis by (intro conjI)
qed

lemma single_draw: "mset xs = mset [0..<Suc 0] \<Longrightarrow> xs = [0]"
  by (cases xs) (auto simp: mset_eq_length dest: mset_eq_setD)

text \<open>
  Claim C9, as amended. With a single fold, \<open>k = 1\<close>, \<open>get_folds\<close> on a partitioned
  splitter raises nothing and assigns nothing: the only permutation of \<open>0 .. 0\<close> keeps
  \<open>0\<close> in place, every draw is rejected and the loop never ends.
\<close>

theorem get_folds_single_fold_diverges:
  assumes "permutation_contract default_rng"
    and "default_rng (seed s) = Inr g"
    and "partitioned s"
    and "fold_count s = 1"
  shows "get_folds default_rng s = None"
proof -
  have "\<forall>m. \<not> all_differ (g m (fold_count s)) [0..<fold_count s]"
  proof
    fix m
    have "mset (g m 1) = mset [0..<Suc 0]"
      using assms(1,2) by (simp add: permutation_contract_def)
    then have "g m 1 = [0]" by (rule single_draw)
    then show "\<not> all_differ (g m (fold_count s)) [0..<fold_count s]"
      by (simp add: assms(4) all_differ_def)
  qed
  then have "draw_until_valid g (fold_count s) 0 = None"
    by (rule draw_until_valid_never)
  with assms(2,3) show ?thesis by (simp add: get_folds_def)
qed

text \<open>The amended claim C9 on the by-row splitter with one fold.\<close>

theorem get_folds_single_fold_diverges_witness:
  "permutation_contract rotating_rng \<and>
   rotating_rng (seed one_fold_partitioned) = Inr rotating_generator \<and>
   partitioned one_fold_partitioned \<and> fold_count one_fold_partitioned = 1 \<and>
   get_folds rotating_rng one_fold_partitioned = None"
proof -
  have h1: "permutation_contract rotating_rng" by (rule rotating_contract)
  have h2: "rotating_rng (seed one_fold_partitioned) = Inr rotating_generator"
    by (simp add: rotating_rng_def)
  have h3: "partitioned one_fold_partitioned" by (simp add: one_fold_partitioned_def)
  have h4: "fold_count one_fold_partitioned = 1"
    by (simp add: one_fold_partitioned_def one_fold_def by_row_def)
  from get_folds_single_fold_diverges[OF h1 h2 h3 h4] h1 h2 h3 h4
  show ?thesis by (intro conjI)
qed

lemma get_partitions_one_fold:
  "get_partitions rotating_rng True one_fold = Inr one_fold_partitioned"
proof -
  have "take_at (elements one_fold) (rotating_generator 0 (length (elements one_fold)))
          = Inr (elements one_fold)"
    by (simp only: rotating_0 take_at_all)
  moreover have "array_split (elements one_fold) (fold_count one_fold)
          = Inr [[IntV 0, IntV 1, IntV 2, IntV 3, IntV 4]]"
    by (simp add: one_fold_def by_row_def array_split_def section_sizes_def)
  ultimately show ?thesis
    by (simp add: get_partitions_def rotating_rng_def one_fold_partitioned_def)
qed

lemma rotating_single: "rotating_generator m (Suc 0) = [0]"
  by (simp add: rotating_generator_def)

lemma draw_single_never: "draw_until_valid rotating_generator (Suc 0) 0 = None"
  by (rule draw_until_valid_never) (simp add: rotating_single all_differ_def)

text \<open>
  Claim C9 as stated fails: fitting the by-row splitter with \<open>k = 1\<close> does not end in a
  configuration error, it does not end at all.
\<close>

theorem fit_single_fold_no_error:
  "fold_count one_fold = 1 \<and> fit rotating_rng True one_fold = None"
proof -
  have "get_folds rotating_rng one_fold_partitioned = None"
    using draw_single_never
    by (simp add: get_folds_def one_fold_partitioned_def one_fold_def by_row_def rotating_rng_def)
  moreover have "fold_count one_fold = 1"
    by (simp add: one_fold_def by_row_def)
  ultimately show ?thesis
    by (simp add: fit_def get_partitions_one_fold)
qed

section \<open>Indexing a fitted splitter\<close>

lemma and_then_Inr: "and_then m f = Inr y \<longleftrightarrow> (\<exists>x. m = Inr x \<and> f x = Inr y)"
  by (cases m) auto

lemma distinct_unique: "distinct (unique xs)"
  by (simp add: unique_def)

lemma set_unique: "set (unique xs) = set xs"
  by (simp add: unique_def)

lemma rows_reset_index:
  "map fst (rows (reset_index d)) = map (\<lambda>i. IntV (int i)) [0..<length (rows d)]"
  by (simp add: reset_index_def)

lemma distinct_labels_reset_index: "distinct (map fst (rows (reset_index d)))"
  unfolding rows_reset_index by (simp add: distinct_map inj_on_def)

lemma Splitter_init_result:
  assumes "Splitter_init d k pc sd ex = Inr s0"
  shows "partition_column s0 = pc" "fold_count s0 = k" "seed s0 = sd"
    "exclude_from_test s0 = ex" "data s0 = reset_index d"
  using assms
  by (auto simp: Splitter_init_def Let_def split: option.splits if_splits)

lemma Splitter_init_elements:
  assumes "Splitter_init d k pc sd ex = Inr s0"
  shows "distinct (elements s0)" "set (elements s0) = elements_of s0 (data s0)"
proof -
  show "distinct (elements s0)"
    using assms
    by (auto simp: Splitter_init_def Let_def distinct_unique distinct_labels_reset_index
        split: option.splits if_splits)
  show "set (elements s0) = elements_of s0 (data s0)"
  proof (cases pc)
    case None
    with assms show ?thesis
      by (auto simp: Splitter_init_def Let_def elements_of_def)
  next
    case (Some c)
    with assms have "c \<in> set (columns (reset_index d))"
      and "s0 = \<lparr>partition_column = Some c, fold_count = k, seed = sd, exclude_from_test = ex,
                  data = reset_index d,
                  elements = unique (map (\<lambda>r. snd r c) (rows (reset_index d))),
                  partitioned = False, fitted = None,
                  splits = None, test_folds = None, val_folds = None\<rparr>"
      by (auto simp: Splitter_init_def Let_def split: if_splits)
    then show ?thesis
      by (simp add: elements_of_def set_unique)
  qed
qed

lemma get_partitions_Inr:
  "get_partitions default_rng shuffle s = Inr s' \<Longrightarrow>
   \<exists>g. default_rng (seed s) = Inr g \<and> 0 < fold_count s"
  by (auto simp: get_partitions_def array_split_def split: sum.splits if_splits)

lemma fit_result:
  assumes contract: "permutation_contract default_rng"
    and run: "fit default_rng shuffle s0 = Some (Inr s)"
  shows "\<exists>sp val. s = s0\<lparr>splits := Some sp, partitioned := True, fitted := Some True,
                         test_folds := Some [0..<fold_count s0], val_folds := Some val\<rparr> \<and>
           0 < fold_count s0 \<and> length sp = fold_count s0 \<and>
           mset (concat sp) = mset (elements s0) \<and>
           mset val = mset [0..<fold_count s0] \<and> (\<forall>i<fold_count s0. val ! i \<noteq> i)"
proof -
  from run obtain s1 where gp: "get_partitions default_rng shuffle s0 = Inr s1"
    and gf: "get_folds default_rng s1 = Some (Inr s)"
    by (auto simp: fit_def split: sum.splits)
  from get_partitions_Inr[OF gp] obtain g where
    g: "default_rng (seed s0) = Inr g" and k: "0 < fold_count s0"
    by blast
  from get_partitions_result[OF contract g k, of shuffle] gp obtain sp where
    s1: "s1 = s0\<lparr>splits := Some sp, partitioned := True, fitted := Some True\<rparr>"
    and sp: "length sp = fold_count s0" "mset (concat sp) = mset (elements s0)"
    by auto
  from get_folds_result[OF contract gf] obtain val where
    s: "s = s1\<lparr>test_folds := Some [0..<fold_count s1], val_folds := Some val\<rparr>"
    and val: "mset val = mset [0..<fold_count s1]" "\<forall>i<fold_count s1. val ! i \<noteq> i"
    by blast
  have "s = s0\<lparr>splits := Some sp, partitioned := True, fitted := Some True,
                 test_folds := Some [0..<fold_count s0], val_folds := Some val\<rparr>"
    using s s1 by simp
  moreover have "mset val = mset [0..<fold_count s0]" "\<forall>i<fold_count s0. val ! i \<noteq> i"
    using val s1 by simp_all
  ultimately show ?thesis using sp k by blast
qed

lemma train_folds_eval:
  assumes "val_folds s = Some val" "test_folds s = Some test" "idx < length val"
    "idx < length test"
  shows "train_folds s idx is = Inr (filter (\<lambda>i. i \<noteq> val ! idx \<and> i \<noteq> test ! idx) is)"
  using assms by (induction "is") (simp_all add: attr_def item_def)

lemma gather_eval:
  assumes "splits s = Some sp" "\<forall>f \<in> set fs. f < length sp"
  shows "gather s fs = Inr (map (\<lambda>f. sp ! f) fs)"
  using assms by (induction fs) (simp_all add: attr_def item_def)

lemma loc_elements:
  assumes "set labels \<subseteq> fst ` set (rows df)"
  shows "\<exists>sub. loc df labels = Inr sub \<and> fst ` set (rows sub) = set labels"
proof -
  have "fst ` set (concat (map (\<lambda>l. filter (\<lambda>r. fst r = l) (rows df)) labels)) = set labels"
    using assms by (auto simp: image_iff) force
  with assms show ?thesis by (simp add: loc_def)
qed

lemma query_elements:
  assumes "plain_identifier c" "c \<in> set (columns df)"
    and "set vals \<subseteq> (\<lambda>r. snd r c) ` set (rows df)"
  shows "\<exists>sub. query_in engine df c vals = Inr sub \<and>
           (\<lambda>r. snd r c) ` set (rows sub) = set vals \<and>
           set (rows sub) = {x \<in> set (rows df). snd x c \<in> set vals}"
  using assms by (auto simp: query_in_def)

lemma Splitter_init_column:
  assumes "Splitter_init d k pc sd ex = Inr s0"
  shows "case partition_column s0 of None \<Rightarrow> True | Some c \<Rightarrow> c \<in> set (columns (data s0))"
  using assms
  by (auto simp: Splitter_init_def Let_def split: option.splits if_splits)

lemma fit_well_fitted:
  assumes contract: "permutation_contract default_rng"
    and init: "Splitter_init d k pc sd ex = Inr s0"
    and run: "fit default_rng shuffle s0 = Some (Inr s)"
  shows "\<exists>sp val. well_fitted s sp val \<and> fold_count s = k \<and> partition_column s = pc \<and>
           exclude_from_test s = ex \<and> data s = reset_index d"
proof -
  from fit_result[OF contract run] obtain sp val where
    s: "s = s0\<lparr>splits := Some sp, partitioned := True, fitted := Some True,
               test_folds := Some [0..<fold_count s0], val_folds := Some val\<rparr>"
    and f: "length sp = fold_count s0" "mset (concat sp) = mset (elements s0)"
      "mset val = mset [0..<fold_count s0]" "\<forall>i<fold_count s0. val ! i \<noteq> i"
    by blast
  note i = Splitter_init_result[OF init] Splitter_init_elements[OF init]
  note col = Splitter_init_column[OF init]
  have el: "elements_of s (data s) = elements_of s0 (data s0)"
    by (simp add: s elements_of_def)
  have same: "data s = data s0" "partition_column s = partition_column s0"
    by (simp_all add: s)
  have col': "case partition_column s of None \<Rightarrow> True | Some c \<Rightarrow> c \<in> set (columns (data s))"
    using col unfolding same .
  have "fitted s = Some True" "splits s = Some sp" "val_folds s = Some val"
    "test_folds s = Some [0..<fold_count s]" "length sp = fold_count s"
    "mset val = mset [0..<fold_count s]" "\<forall>i<fold_count s. val ! i \<noteq> i"
    "mset (concat sp) = mset (elements s)" "distinct (elements s)"
    "set (elements s) = elements_of s0 (data s0)"
    using f i(6,7) by (simp_all add: s)
  with col' have "well_fitted s sp val"
    unfolding well_fitted_def el by (intro conjI)
  moreover have "fold_count s = k" "partition_column s = pc" "exclude_from_test s = ex"
    "data s = reset_index d"
    using i(1-5) by (simp_all add: s)
  ultimately show ?thesis by blast
qed

lemma well_fitted_val:
  assumes "well_fitted s sp val" "r < fold_count s"
  shows "length val = fold_count s" "val ! r < fold_count s" "val ! r \<noteq> r"
proof -
  from assms(1) have ms: "mset val = mset [0..<fold_count s]"
    and nf: "\<forall>i<fold_count s. val ! i \<noteq> i"
    by (simp_all add: well_fitted_def)
  from ms show len: "length val = fold_count s"
    by (metis length_upt minus_nat.diff_0 size_mset)
  from ms have "set val = {0..<fold_count s}"
    by (metis mset_eq_setD set_upt)
  moreover have "val ! r \<in> set val" using len assms(2) by simp
  ultimately show "val ! r < fold_count s" by simp
  from nf assms(2) show "val ! r \<noteq> r" by simp
qed

lemma well_fitted_folds:
  assumes "well_fitted s sp val"
  shows "distinct (concat sp)" "set (concat sp) = set (elements s)"
    "\<And>f. f < fold_count s \<Longrightarrow> set (sp ! f) \<subseteq> set (elements s)"
proof -
  from assms have ms: "mset (concat sp) = mset (elements s)" and d: "distinct (elements s)"
    and len: "length sp = fold_count s"
    by (simp_all add: well_fitted_def)
  from ms d show "distinct (concat sp)" by (metis mset_eq_imp_distinct_iff)
  from ms show eq: "set (concat sp) = set (elements s)" by (rule mset_eq_setD)
  fix f assume "f < fold_count s"
  then have "sp ! f \<in> set sp" using len by simp
  then have "set (sp ! f) \<subseteq> set (concat sp)" by auto
  then show "set (sp ! f) \<subseteq> set (elements s)" using eq by simp
qed

lemma getitem_eval:
  assumes wf: "well_fitted s sp val" and r: "r < fold_count s"
  shows "getitem engine s r =
     (if filter (\<lambda>i. i \<noteq> val ! r \<and> i \<noteq> r) [0..<fold_count s] = [] then Inl ValueError
      else case partition_column s of
        None \<Rightarrow>
          and_then (loc (data s)
            (concat (map (\<lambda>f. sp ! f) (filter (\<lambda>i. i \<noteq> val ! r \<and> i \<noteq> r) [0..<fold_count s]))))
            (\<lambda>train.
          and_then (loc (data s) (sp ! (val ! r))) (\<lambda>va.
          and_then (loc (data s) (filter (\<lambda>el. el \<notin> set (exclude_from_test s)) (sp ! r)))
            (\<lambda>test. Inr (train, va, test))))
      | Some c \<Rightarrow>
          and_then (query_in engine (data s) c
            (concat (map (\<lambda>f. sp ! f) (filter (\<lambda>i. i \<noteq> val ! r \<and> i \<noteq> r) [0..<fold_count s]))))
            (\<lambda>train.
          and_then (query_in engine (data s) c (sp ! (val ! r))) (\<lambda>va.
          and_then (query_in engine (data s) c
                      (filter (\<lambda>el. el \<notin> set (exclude_from_test s)) (sp ! r)))
            (\<lambda>test. Inr (train, va, test)))))"
proof -
  note v = well_fitted_val[OF wf r]
  from wf have f: "fitted s = Some True" "splits s = Some sp" "val_folds s = Some val"
    "test_folds s = Some [0..<fold_count s]" "length sp = fold_count s"
    by (simp_all add: well_fitted_def)
  have tf: "train_folds s r [0..<fold_count s]
      = Inr (filter (\<lambda>i. i \<noteq> val ! r \<and> i \<noteq> r) [0..<fold_count s])"
    using train_folds_eval[OF f(3) f(4), of r "[0..<fold_count s]"] v(1) r by simp
  have ga: "gather s (filter (\<lambda>i. i \<noteq> val ! r \<and> i \<noteq> r) [0..<fold_count s])
      = Inr (map (\<lambda>f. sp ! f) (filter (\<lambda>i. i \<noteq> val ! r \<and> i \<noteq> r) [0..<fold_count s]))"
    by (rule gather_eval[OF f(2)]) (simp add: f(5))
  show ?thesis
    unfolding getitem_def
    using v r by (simp add: f tf ga concatenate_def attr_def item_def Let_def)
qed

lemma materialise_loc:
  assumes "partition_column s = None" "well_fitted s sp val" "set xs \<subseteq> set (elements s)"
  shows "\<exists>sub. loc (data s) xs = Inr sub \<and> elements_of s sub = set xs"
proof -
  from assms(1,2) have "set (elements s) = fst ` set (rows (data s))"
    by (simp add: well_fitted_def elements_of_def)
  with assms(3) have "set xs \<subseteq> fst ` set (rows (data s))" by simp
  from loc_elements[OF this] show ?thesis
    using assms(1) by (simp add: elements_of_def)
qed

lemma materialise_query:
  assumes col: "partition_column s = Some c" and id: "plain_identifier c"
    and wf: "well_fitted s sp val" and sub: "set xs \<subseteq> set (elements s)"
  shows "\<exists>sub. query_in engine (data s) c xs = Inr sub \<and> elements_of s sub = set xs \<and>
           set (rows sub) = {x \<in> set (rows (data s)). snd x c \<in> set xs}"
proof -
  from col wf have "set (elements s) = (\<lambda>r. snd r c) ` set (rows (data s))"
    and c: "c \<in> set (columns (data s))"
    by (simp_all add: well_fitted_def elements_of_def)
  with sub have "set xs \<subseteq> (\<lambda>r. snd r c) ` set (rows (data s))" by simp
  from query_elements[OF id c this, of engine] show ?thesis
    using col by (simp add: elements_of_def)
qed

lemma no_train_fold_iff:
  assumes "r < k" "v < k" "v \<noteq> r"
  shows "filter (\<lambda>i. i \<noteq> v \<and> i \<noteq> r) [0..<k] = [] \<longleftrightarrow> k = 2"
proof
  assume e: "filter (\<lambda>i. i \<noteq> v \<and> i \<noteq> r) [0..<k] = []"
  have "k < 3"
  proof (rule ccontr)
    assume "\<not> k < 3"
    then have "0 < k" "1 < k" "2 < k" by simp_all
    with e have "0 = v \<or> 0 = r" "1 = v \<or> 1 = r" "2 = v \<or> 2 = r"
      by (auto simp: filter_empty_conv)
    then show False by auto
  qed
  with assms show "k = 2" by simp
next
  assume "k = 2"
  with assms show "filter (\<lambda>i. i \<noteq> v \<and> i \<noteq> r) [0..<k] = []"
    by (auto simp: filter_empty_conv)
qed

text \<open>With three folds or more, indexing a fitted splitter returns, and the tables hold
  the elements of the train folds, of the validation fold, and of the test fold without
  the excluded elements.\<close>

lemma getitem_result:
  assumes wf: "well_fitted s sp val" and r: "r < fold_count s" and k: "3 \<le> fold_count s"
    and ok: "plain_column (partition_column s)"
  shows "\<exists>tr va te. getitem engine s r = Inr (tr, va, te) \<and>
           elements_of s tr
             = (\<Union>f \<in> {f. f < fold_count s \<and> f \<noteq> val ! r \<and> f \<noteq> r}. set (sp ! f)) \<and>
           elements_of s va = set (sp ! (val ! r)) \<and>
           elements_of s te = set (sp ! r) - set (exclude_from_test s) \<and>
           (\<forall>c. partition_column s = Some c \<longrightarrow>
              set (rows tr) = {x \<in> set (rows (data s)). snd x c \<in> elements_of s tr} \<and>
              set (rows va) = {x \<in> set (rows (data s)). snd x c \<in> elements_of s va} \<and>
              set (rows te) = {x \<in> set (rows (data s)). snd x c \<in> elements_of s te})"
proof -
  note v = well_fitted_val[OF wf r]
  note fo = well_fitted_folds[OF wf]
  let ?tfs = "filter (\<lambda>i. i \<noteq> val ! r \<and> i \<noteq> r) [0..<fold_count s]"
  let ?A = "concat (map (\<lambda>f. sp ! f) ?tfs)"
  let ?B = "sp ! (val ! r)"
  let ?C = "filter (\<lambda>el. el \<notin> set (exclude_from_test s)) (sp ! r)"
  have sA: "set ?A = (\<Union>f \<in> {f. f < fold_count s \<and> f \<noteq> val ! r \<and> f \<noteq> r}. set (sp ! f))"
    by auto
  have sC: "set ?C = set (sp ! r) - set (exclude_from_test s)" by auto
  have subA: "set ?A \<subseteq> set (elements s)" using fo(3) by auto
  have subB: "set ?B \<subseteq> set (elements s)" using fo(3) v(2) by simp
  have subC: "set ?C \<subseteq> set (elements s)" using fo(3)[OF r] by auto
  have ne: "?tfs \<noteq> []"
    using no_train_fold_iff[OF r v(2) v(3)] k by simp
  show ?thesis
  proof (cases "partition_column s")
    case None
    from materialise_loc[OF None wf subA] obtain a where
      a: "loc (data s) ?A = Inr a" "elements_of s a = set ?A" by blast
    from materialise_loc[OF None wf subB] obtain b where
      b: "loc (data s) ?B = Inr b" "elements_of s b = set ?B" by blast
    from materialise_loc[OF None wf subC] obtain c where
      c: "loc (data s) ?C = Inr c" "elements_of s c = set ?C" by blast
    have g: "getitem engine s r = Inr (a, b, c)"
      unfolding getitem_eval[OF wf r] using ne None a(1) b(1) c(1) by simp
    have "elements_of s a
             = (\<Union>f \<in> {f. f < fold_count s \<and> f \<noteq> val ! r \<and> f \<noteq> r}. set (sp ! f))"
      using a(2) sA by simp
    moreover have "elements_of s c = set (sp ! r) - set (exclude_from_test s)"
      using c(2) sC by simp
    moreover have "\<forall>col. partition_column s = Some col \<longrightarrow>
              set (rows a) = {x \<in> set (rows (data s)). snd x col \<in> elements_of s a} \<and>
              set (rows b) = {x \<in> set (rows (data s)). snd x col \<in> elements_of s b} \<and>
              set (rows c) = {x \<in> set (rows (data s)). snd x col \<in> elements_of s c}"
      using None by simp
    ultimately show ?thesis using g b(2) by blast
  next
    case (Some col)
    with ok have id: "plain_identifier col" by (simp add: plain_column_def)
    from materialise_query[OF Some id wf subA, of engine] obtain a where
      a: "query_in engine (data s) col ?A = Inr a" "elements_of s a = set ?A"
        "set (rows a) = {x \<in> set (rows (data s)). snd x col \<in> set ?A}" by blast
    from materialise_query[OF Some id wf subB, of engine] obtain b where
      b: "query_in engine (data s) col ?B = Inr b" "elements_of s b = set ?B"
        "set (rows b) = {x \<in> set (rows (data s)). snd x col \<in> set ?B}" by blast
    from materialise_query[OF Some id wf subC, of engine] obtain c where
      c: "query_in engine (data s) col ?C = Inr c" "elements_of s c = set ?C"
        "set (rows c) = {x \<in> set (rows (data s)). snd x col \<in> set ?C}" by blast
    have g: "getitem engine s r = Inr (a, b, c)"
      unfolding getitem_eval[OF wf r] using ne Some a(1) b(1) c(1) by simp
    have "elements_of s a
             = (\<Union>f \<in> {f. f < fold_count s \<and> f \<noteq> val ! r \<and> f \<noteq> r}. set (sp ! f))"
      using a(2) sA by simp
    moreover have "elements_of s c = set (sp ! r) - set (exclude_from_test s)"
      using c(2) sC by simp
    moreover have "\<forall>c'. partition_column s = Some c' \<longrightarrow>
              set (rows a) = {x \<in> set (rows (data s)). snd x c' \<in> elements_of s a} \<and>
              set (rows b) = {x \<in> set (rows (data s)). snd x c' \<in> elements_of s b} \<and>
              set (rows c) = {x \<in> set (rows (data s)). snd x c' \<in> elements_of s c}"
      using Some a(2,3) b(2,3) c(2,3) by simp
    ultimately show ?thesis using g b(2) by blast
  qed
qed

lemma getitem_two_folds:
  assumes wf: "well_fitted s sp val" and r: "r < fold_count s" and k: "fold_count s = 2"
  shows "getitem engine s r = Inl ValueError"
  unfolding getitem_eval[OF wf r]
  using no_train_fold_iff[OF r well_fitted_val(2,3)[OF wf r]] k by simp

lemma draw_rotating_3: "draw_until_valid rotating_generator 3 0 = Some [1, 2, 0]"
proof -
  have "draw_until_valid rotating_generator 3 0 = draw_until_valid rotating_generator 3 (Suc 0)"
    by (subst draw_until_valid.simps) (simp add: not_all_differ_rotating_0 Let_def)
  also have "\<dots> = Some [1, 2, 0]"
    using all_differ_rotating_1_3
    by (subst draw_until_valid.simps) (simp add: rotating_1_3 Let_def)
  finally show ?thesis .
qed

lemma upt_3: "[0..<3] = [0, 1, 2]"
  by (simp add: upt_conv_Cons)

lemma fit_by_row: "fit rotating_rng True by_row = Some (Inr by_row_fitted)"
proof -
  have gp: "get_partitions rotating_rng True by_row = Inr by_row_partitioned"
    by (simp add: get_partitions_by_row by_row_partitioned_def)
  have k: "fold_count by_row_partitioned = 3"
    by (simp add: by_row_partitioned_def by_row_def)
  have "get_folds rotating_rng by_row_partitioned = Some (Inr by_row_fitted)"
    unfolding get_folds_def k
    by (simp add: rotating_rng_def draw_rotating_3 upt_3 by_row_fitted_def)
       (simp add: by_row_partitioned_def)
  with gp show ?thesis by (simp add: fit_def)
qed


lemma section_sizes_5_2: "section_sizes (length [a, b, c, d, e]) 2 = [3, 2]"
  by code_simp

lemma array_split_5_2: "array_split [a, b, c, d, e] 2 = Inr [[a, b, c], [d, e]]"
  unfolding array_split_def section_sizes_5_2 by simp

lemma rotating_1_2: "rotating_generator (Suc 0) 2 = [1, 0]"
  unfolding rotating_generator_def by code_simp

lemma upt_2: "[0..<2] = [0, 1]"
  by (simp add: upt_conv_Cons)

lemma draw_rotating_2: "draw_until_valid rotating_generator 2 0 = Some [1, 0]"
proof -
  have ad: "all_differ [1, 0] [0..<2]"
    by (simp add: all_differ_def upt_2)
  have "draw_until_valid rotating_generator 2 0 = draw_until_valid rotating_generator 2 (Suc 0)"
    by (subst draw_until_valid.simps) (simp add: not_all_differ_rotating_0 Let_def)
  also have "\<dots> = Some [1, 0]"
    using ad
    by (subst draw_until_valid.simps) (simp add: rotating_1_2 Let_def)
  finally show ?thesis .
qed

lemma Splitter_init_two_folds:
  "Splitter_init toy_table 2 None default_seed [IntV 0] = Inr two_folds"
  using Splitter_init_by_row
  by (simp add: Splitter_init_def Let_def two_folds_def by_row_def)

lemma fit_two_folds: "fit rotating_rng True two_folds = Some (Inr two_folds_fitted)"
proof -
  let ?p = "two_folds\<lparr>splits := Some [[IntV 0, IntV 1, IntV 2], [IntV 3, IntV 4]],
                      partitioned := True, fitted := Some True\<rparr>"
  have "take_at (elements two_folds) (rotating_generator 0 (length (elements two_folds)))
          = Inr (elements two_folds)"
    by (simp only: rotating_0 take_at_all)
  moreover have "array_split (elements two_folds) (fold_count two_folds)
          = Inr [[IntV 0, IntV 1, IntV 2], [IntV 3, IntV 4]]"
    by (simp add: two_folds_def by_row_def array_split_5_2)
  ultimately have gp: "get_partitions rotating_rng True two_folds = Inr ?p"
    by (simp add: get_partitions_def rotating_rng_def)
  have k: "fold_count ?p = 2" by (simp add: two_folds_def)
  have "get_folds rotating_rng ?p = Some (Inr two_folds_fitted)"
    unfolding get_folds_def k
    by (simp add: rotating_rng_def draw_rotating_2 upt_2 two_folds_fitted_def)
  with gp show ?thesis by (simp add: fit_def)
qed


text \<open>A column name with a space is no plain identifier: the query on it is whatever
  the library's parser makes of the text.\<close>

lemma not_plain_CELL_ID_with_space: "\<not> plain_identifier ''CELL ID''"
  by code_simp

lemma query_in_other_name:
  "\<not> plain_identifier c \<Longrightarrow> query_in engine df c vals = engine df c vals"
  by (simp add: query_in_def)

section \<open>The roles of a run\<close>

lemma folds_cover:
  assumes "length sp = k"
  shows "set (concat sp) = (\<Union>f \<in> {f. f < k}. set (sp ! f))"
proof -
  have "set sp = (\<lambda>f. sp ! f) ` {f. f < k}"
    using assms by (auto simp: set_conv_nth)
  then have "(\<Union>xs \<in> set sp. set xs) = (\<Union>f \<in> {f. f < k}. set (sp ! f))"
    by simp
  then show ?thesis by (simp only: set_concat)
qed

text \<open>The folds of the three roles of a run share no element and cover the elements.\<close>

lemma fold_roles_partition:
  assumes wf: "well_fitted s sp val" and r: "r < fold_count s"
    and A: "A = (\<Union>f \<in> {f. f < fold_count s \<and> f \<noteq> val ! r \<and> f \<noteq> r}. set (sp ! f))"
    and B: "B = set (sp ! (val ! r))"
    and C: "C = set (sp ! r) - set (exclude_from_test s)"
  shows "A \<inter> B = {}" "A \<inter> C = {}" "B \<inter> C = {}"
    "A \<union> B \<union> C \<union> (set (exclude_from_test s) \<inter> set (elements s)) = set (elements s)"
proof -
  note v = well_fitted_val[OF wf r]
  note fo = well_fitted_folds[OF wf]
  from wf have len: "length sp = fold_count s" by (simp add: well_fitted_def)
  have dj: "x \<notin> set (sp ! g)"
    if "f < fold_count s" "g < fold_count s" "f \<noteq> g" "x \<in> set (sp ! f)" for f g x
  proof -
    from that(1,2,3) have "set (sp ! f) \<inter> set (sp ! g) = {}"
      using distinct_concat_disjoint[OF fo(1), of f g] len by simp
    with that(4) show ?thesis by blast
  qed
  show "A \<inter> B = {}"
    unfolding A B using dj[OF _ v(2)] by blast
  show "A \<inter> C = {}"
    unfolding A C using dj[OF _ r] by blast
  show "B \<inter> C = {}"
    unfolding B C using dj[OF v(2) r v(3)] by blast
  have cover: "set (elements s) = (\<Union>f \<in> {f. f < fold_count s}. set (sp ! f))"
    using folds_cover[OF len] fo(2) by simp
  have split: "set (elements s)
      = (\<Union>f \<in> {f. f < fold_count s \<and> f \<noteq> val ! r \<and> f \<noteq> r}. set (sp ! f))
        \<union> set (sp ! (val ! r)) \<union> set (sp ! r)"
    unfolding cover using v(2) r by auto
  show "A \<union> B \<union> C \<union> (set (exclude_from_test s) \<inter> set (elements s)) = set (elements s)"
    unfolding A B C split by blast
qed

text \<open>A table is returned only when there are three folds or more.\<close>

lemma getitem_Inr_folds:
  assumes wf: "well_fitted s sp val" and r: "r < fold_count s"
    and run: "getitem engine s r = Inr x"
  shows "3 \<le> fold_count s"
proof -
  note v = well_fitted_val[OF wf r]
  from v(2,3) r have "2 \<le> fold_count s" by simp
  moreover have "fold_count s \<noteq> 2"
    using getitem_two_folds[OF wf r, of engine] run by auto
  ultimately show ?thesis by simp
qed

text \<open>
  Claim C1, amended. For a splitter built by \<open>__init__\<close> and fitted, with three folds or
  more, partitioning by row or by a column whose name is a plain identifier, and a run
  \<open>r\<close> below \<open>k\<close>: indexing returns a train, a validation and a test table; their
  element sets are pairwise disjoint, and together with the excluded elements they are
  the full element set, so with an empty exclusion list the union of the three is the
  full element set.
\<close>

theorem getitem_roles_partition:
  assumes "permutation_contract default_rng"
    and "Splitter_init d k pc sd ex = Inr s0"
    and "fit default_rng shuffle s0 = Some (Inr s)"
    and "r < k" and "3 \<le> k" and "plain_column pc"
  shows "\<exists>tr va te. getitem engine s r = Inr (tr, va, te) \<and>
           elements_of s tr \<inter> elements_of s va = {} \<and>
           elements_of s tr \<inter> elements_of s te = {} \<and>
           elements_of s va \<inter> elements_of s te = {} \<and>
           elements_of s tr \<union> elements_of s va \<union> elements_of s te \<union>
             (set ex \<inter> set (elements s)) = set (elements s)"
proof -
  from fit_well_fitted[OF assms(1,2,3)] obtain sp val where
    wf: "well_fitted s sp val" and k: "fold_count s = k" and pc: "partition_column s = pc"
    and ex: "exclude_from_test s = ex"
    by blast
  from assms(4,5,6) k pc have r: "r < fold_count s" and k3: "3 \<le> fold_count s"
    and ok: "plain_column (partition_column s)" by simp_all
  from getitem_result[OF wf r k3 ok, of engine] obtain tr va te where
    g: "getitem engine s r = Inr (tr, va, te)"
    and A: "elements_of s tr
             = (\<Union>f \<in> {f. f < fold_count s \<and> f \<noteq> val ! r \<and> f \<noteq> r}. set (sp ! f))"
    and B: "elements_of s va = set (sp ! (val ! r))"
    and C: "elements_of s te = set (sp ! r) - set (exclude_from_test s)"
    by blast
  note p = fold_roles_partition[OF wf r A B C]
  from p(4) ex have "elements_of s tr \<union> elements_of s va \<union> elements_of s te \<union>
             (set ex \<inter> set (elements s)) = set (elements s)" by simp
  with g p(1,2,3) show ?thesis by blast
qed

text \<open>The amended claim C1 on run 0 of the by-row splitter with three folds.\<close>

theorem getitem_roles_partition_witness:
  "permutation_contract rotating_rng \<and>
   Splitter_init toy_table 3 None default_seed [IntV 0] = Inr by_row \<and>
   fit rotating_rng True by_row = Some (Inr by_row_fitted) \<and> (0::nat) < 3 \<and>
   (3::nat) \<le> 3 \<and> plain_column None \<and>
   (\<exists>tr va te. getitem rejecting_engine by_row_fitted 0 = Inr (tr, va, te) \<and>
      elements_of by_row_fitted tr \<inter> elements_of by_row_fitted va = {} \<and>
      elements_of by_row_fitted tr \<inter> elements_of by_row_fitted te = {} \<and>
      elements_of by_row_fitted va \<inter> elements_of by_row_fitted te = {} \<and>
      elements_of by_row_fitted tr \<union> elements_of by_row_fitted va \<union>
        elements_of by_row_fitted te \<union>
        (set [IntV 0] \<inter> set (elements by_row_fitted))
      = set (elements by_row_fitted))"
proof -
  have h1: "permutation_contract rotating_rng" by (rule rotating_contract)
  note h2 = Splitter_init_by_row
  note h3 = fit_by_row
  have h4: "(0::nat) < 3" by simp
  have h5: "(3::nat) \<le> 3" by simp
  have h6: "plain_column None" by (simp add: plain_column_def)
  from getitem_roles_partition[OF h1 h2 h3 h4 h5 h6, of rejecting_engine] h1 h2 h3 h4 h5 h6
  show ?thesis by (intro conjI)
qed

text \<open>
  Claim C1 as stated fails for two folds. The by-row splitter of the five-row table
  with \<open>k=2\<close> is built and fitted; in each of its two runs one fold validates and the
  other tests, no fold is left to train on, \<open>np.concatenate\<close> of the empty list raises
  \<open>ValueError\<close>, and indexing returns no subsets at all.
\<close>

theorem getitem_two_folds_raises:
  "Splitter_init toy_table 2 None default_seed [IntV 0] = Inr two_folds \<and>
   fit rotating_rng True two_folds = Some (Inr two_folds_fitted) \<and>
   getitem rejecting_engine two_folds_fitted 0 = Inl ValueError \<and>
   getitem rejecting_engine two_folds_fitted 1 = Inl ValueError"
proof -
  note h2 = Splitter_init_two_folds
  note h3 = fit_two_folds
  from fit_well_fitted[OF rotating_contract h2 h3] obtain sp val where
    wf: "well_fitted two_folds_fitted sp val" and k: "fold_count two_folds_fitted = 2"
    by blast
  have "getitem rejecting_engine two_folds_fitted 0 = Inl ValueError"
    by (rule getitem_two_folds[OF wf _ k]) (simp add: k)
  moreover have "getitem rejecting_engine two_folds_fitted 1 = Inl ValueError"
    by (rule getitem_two_folds[OF wf _ k]) (simp add: k)
  ultimately show ?thesis using h2 h3 by (intro conjI)
qed

section \<open>The exclusion list\<close>



section \<open>Grouping\<close>




section \<open>The manager\<close>

lemma fit_keeps:
  assumes "fit default_rng shuffle s0 = Some (Inr s)"
  shows "seed s = seed s0" "exclude_from_test s = exclude_from_test s0"
  using assms
  by (auto simp: fit_def get_partitions_def get_folds_def
      split: sum.splits option.splits if_splits)

lemma DatasetManager_init_result:
  assumes "DatasetManager_init default_rng pipeline target feat k pc E = Some (Inr m)"
  shows "\<exists>d s0. preprocess pipeline = Inr d \<and>
           Splitter_init d k pc (SeedSeq E) default_exclude_from_test = Inr s0 \<and>
           fit default_rng True s0 = Some (Inr (dm_splitter m)) \<and>
           m = \<lparr>ppl = pipeline, dm_drug_featurizer = feat, processed_data = d,
                dm_splitter = dm_splitter m, target_processor = target\<rparr>"
  using assms
  by (auto simp: DatasetManager_init_def split: sum.splits option.splits)

lemma Splitter_init_managed:
  "Splitter_init toy_table 3 None (SeedSeq [IntV 0]) default_exclude_from_test
     = Inr (by_row\<lparr>seed := SeedSeq [IntV 0], exclude_from_test := []\<rparr>)"
  using Splitter_init_by_row
  by (simp add: Splitter_init_def Let_def by_row_def default_exclude_from_test_def)

lemma fit_managed:
  "fit rotating_rng True (by_row\<lparr>seed := SeedSeq [IntV 0], exclude_from_test := []\<rparr>)
     = Some (Inr managed_splitter)"
proof -
  let ?s = "by_row\<lparr>seed := SeedSeq [IntV 0], exclude_from_test := []\<rparr>"
  let ?p = "?s\<lparr>splits := Some [[IntV 0, IntV 1], [IntV 2, IntV 3], [IntV 4]],
                partitioned := True, fitted := Some True\<rparr>"
  have "take_at (elements ?s) (rotating_generator 0 (length (elements ?s)))
          = Inr (elements ?s)"
    by (simp only: rotating_0 take_at_all)
  moreover have "array_split (elements ?s) (fold_count ?s)
          = Inr [[IntV 0, IntV 1], [IntV 2, IntV 3], [IntV 4]]"
    by (simp add: by_row_def array_split_5_3)
  ultimately have gp: "get_partitions rotating_rng True ?s = Inr ?p"
    by (simp add: get_partitions_def rotating_rng_def)
  have k: "fold_count ?p = 3" by (simp add: by_row_def)
  have "get_folds rotating_rng ?p = Some (Inr managed_splitter)"
    unfolding get_folds_def k
    by (simp add: rotating_rng_def draw_rotating_3 upt_3 managed_splitter_def by_row_fitted_def
        by_row_partitioned_def)
  with gp show ?thesis by (simp add: fit_def)
qed

lemma DatasetManager_init_toy:
  "DatasetManager_init rotating_rng toy_pipeline (MinMaxScaling_init ()) toy_featurizer 3 None
     [IntV 0] = Some (Inr toy_manager)"
proof -
  have "preprocess toy_pipeline = Inr toy_table" by (simp add: toy_pipeline_def)
  then show ?thesis
    unfolding DatasetManager_init_def
    by (simp add: Splitter_init_managed fit_managed toy_manager_def)
qed

text \<open>
  Claim C5. The splitter of a manager constructed with the argument
  \<open>exclude_from_test = E\<close> has the empty default as its exclusion list and \<open>E\<close> as its
  seed, which is not the default seed 3558. Hence, for a generator that meets its
  contract and a partitioning by row or by a plain-identifier column, the test table of
  a run \<open>r\<close> below \<open>k\<close> that the splitter returns holds the whole of fold \<open>r\<close>: no
  element of \<open>E\<close> is removed.
\<close>

theorem manager_exclusion_is_seed:
  assumes "DatasetManager_init default_rng pipeline target feat k pc E = Some (Inr m)"
  shows "exclude_from_test (dm_splitter m) = [] \<and>
         seed (dm_splitter m) = SeedSeq E \<and>
         seed (dm_splitter m) \<noteq> default_seed \<and>
         (permutation_contract default_rng \<and> plain_column pc \<longrightarrow>
            (\<forall>r<k. \<forall>tr va te. getitem engine (dm_splitter m) r = Inr (tr, va, te) \<longrightarrow>
               (\<exists>sp. splits (dm_splitter m) = Some sp \<and>
                  elements_of (dm_splitter m) te = set (sp ! r))))"
proof -
  let ?s = "dm_splitter m"
  from DatasetManager_init_result[OF assms] obtain d s0 where
    init: "Splitter_init d k pc (SeedSeq E) default_exclude_from_test = Inr s0"
    and run: "fit default_rng True s0 = Some (Inr ?s)"
    by blast
  note i = Splitter_init_result[OF init]
  note keep = fit_keeps[OF run]
  have ex: "exclude_from_test ?s = []"
    using keep(2) i(4) by (simp add: default_exclude_from_test_def)
  have sd: "seed ?s = SeedSeq E"
    using keep(1) i(3) by simp
  have nd: "seed ?s \<noteq> default_seed"
    using sd by (simp add: default_seed_def)
  have whole: "\<exists>sp. splits ?s = Some sp \<and> elements_of ?s te = set (sp ! r)"
    if contract: "permutation_contract default_rng" and ok: "plain_column pc"
      and r: "r < k" and g: "getitem engine ?s r = Inr (tr, va, te)"
    for r tr va te
  proof -
    from fit_well_fitted[OF contract init run] obtain sp val where
      wf: "well_fitted ?s sp val" and k: "fold_count ?s = k"
      and pc: "partition_column ?s = pc"
      by blast
    from r k have r': "r < fold_count ?s" by simp
    from ok pc have ok': "plain_column (partition_column ?s)" by simp
    note k3 = getitem_Inr_folds[OF wf r' g]
    from getitem_result[OF wf r' k3 ok', of engine] obtain tr' va' te' where
      g': "getitem engine ?s r = Inr (tr', va', te')"
      and C': "elements_of ?s te' = set (sp ! r) - set (exclude_from_test ?s)"
      by blast
    from g g' have "te' = te" by simp
    with C' ex have "elements_of ?s te = set (sp ! r)" by simp
    moreover from wf have "splits ?s = Some sp" by (simp add: well_fitted_def)
    ultimately show ?thesis by blast
  qed
  show ?thesis
  proof (intro conjI impI allI)
    show "exclude_from_test ?s = []" by (rule ex)
    show "seed ?s = SeedSeq E" by (rule sd)
    show "seed ?s \<noteq> default_seed" by (rule nd)
  next
    fix r tr va te
    assume "permutation_contract default_rng \<and> plain_column pc" "r < k"
      "getitem engine ?s r = Inr (tr, va, te)"
    then show "\<exists>sp. splits ?s = Some sp \<and> elements_of ?s te = set (sp ! r)"
      using whole by blast
  qed
qed

text \<open>Claim C5 on the manager of the five-row table asked to exclude row 0: row 0 is
  in the test table of run 0.\<close>

theorem manager_exclusion_is_seed_witness:
  "DatasetManager_init rotating_rng toy_pipeline (MinMaxScaling_init ()) toy_featurizer 3 None
     [IntV 0] = Some (Inr toy_manager) \<and>
   exclude_from_test (dm_splitter toy_manager) = [] \<and>
   seed (dm_splitter toy_manager) = SeedSeq [IntV 0] \<and>
   seed (dm_splitter toy_manager) \<noteq> default_seed \<and>
   permutation_contract rotating_rng \<and> plain_column None \<and> (0::nat) < 3 \<and>
   (\<exists>tr va te. getitem rejecting_engine (dm_splitter toy_manager) 0 = Inr (tr, va, te) \<and>
      IntV 0 \<in> elements_of (dm_splitter toy_manager) te)"
proof -
  note h = DatasetManager_init_toy
  have h1: "permutation_contract rotating_rng" by (rule rotating_contract)
  have h2: "plain_column None" by (simp add: plain_column_def)
  have h3: "(0::nat) < 3" by simp
  note c = manager_exclusion_is_seed[OF h, of rejecting_engine]
  have s: "dm_splitter toy_manager = managed_splitter" by (simp add: toy_manager_def)
  from fit_well_fitted[OF h1 Splitter_init_managed fit_managed] obtain sp val where
    wf: "well_fitted managed_splitter sp val" and k: "fold_count managed_splitter = 3"
    and pc: "partition_column managed_splitter = None"
    by blast
  have r: "0 < fold_count managed_splitter" and k3: "3 \<le> fold_count managed_splitter"
    and ok: "plain_column (partition_column managed_splitter)"
    using k pc h2 by simp_all
  from getitem_result[OF wf r k3 ok, of rejecting_engine] obtain tr va te where
    g: "getitem rejecting_engine (dm_splitter toy_manager) 0 = Inr (tr, va, te)"
    unfolding s by blast
  note c1 = conjunct1[OF c]
  note c2 = conjunct1[OF conjunct2[OF c]]
  note c3 = conjunct1[OF conjunct2[OF conjunct2[OF c]]]
  note c4 = conjunct2[OF conjunct2[OF conjunct2[OF c]], rule_format, OF conjI[OF h1 h2] h3 g]
  from c4 obtain sp' where
    sp': "splits (dm_splitter toy_manager) = Some sp'"
    and te: "elements_of (dm_splitter toy_manager) te = set (sp' ! 0)"
    by blast
  from sp' have "sp' = [[IntV 0, IntV 1], [IntV 2, IntV 3], [IntV 4]]"
    by (simp add: s managed_splitter_def by_row_fitted_def by_row_partitioned_def)
  with te have "IntV 0 \<in> elements_of (dm_splitter toy_manager) te" by simp
  with g have "\<exists>tr va te. getitem rejecting_engine (dm_splitter toy_manager) 0 = Inr (tr, va, te) \<and>
      IntV 0 \<in> elements_of (dm_splitter toy_manager) te" by blast
  with h c1 c2 c3 h1 h2 h3 show ?thesis by (intro conjI)
qed

text \<open>
  Claim C10. \<open>get_partition(r)\<close> returns exactly when indexing the splitter returns
  \<open>(train, val, test)\<close>, fitting the target processor on \<open>train\<close> returns, and the
  three transformations return; the triple it returns is then the transformed train
  table, the transformed test table and the transformed validation table, in this
  order: the second and the third position are swapped against the splitter's order.
\<close>

theorem get_partition_order:
  "get_partition engine ops m r = Inr ((a, b, c), m') \<longleftrightarrow>
     (\<exists>train val test p.
        getitem engine (dm_splitter m) r = Inr (train, val, test) \<and>
        tp_fit ops (target_processor m) train = Inr p \<and>
        transform ops p train = Inr a \<and>
        transform ops p test = Inr b \<and>
        transform ops p val = Inr c \<and>
        m' = m\<lparr>target_processor := p\<rparr>)"
  unfolding get_partition_def and_then_Inr
  by (auto simp: and_then_Inr)

lemma tp_fit_toy:
  "tp_fit toy_ops (MinMaxScaling_init ()) x
     = Inr \<lparr>cls = MinMaxScaling, tp_fitted = Some True, minmax = Some ()\<rparr>"
  by (simp add: tp_fit_def toy_ops_def MinMaxScaling_init_def attr_def)

lemma transform_toy:
  "transform toy_ops \<lparr>cls = MinMaxScaling, tp_fitted = Some True, minmax = Some ()\<rparr> x = Inr x"
  by (simp add: transform_def tp_call_def toy_ops_def attr_def)

lemma getitem_managed_0:
  "\<exists>tr va te. getitem rejecting_engine managed_splitter 0 = Inr (tr, va, te) \<and>
     elements_of managed_splitter va = {IntV 2, IntV 3} \<and>
     elements_of managed_splitter te = {IntV 0, IntV 1}"
proof -
  from fit_well_fitted[OF rotating_contract Splitter_init_managed fit_managed] obtain sp val where
    wf: "well_fitted managed_splitter sp val" and k: "fold_count managed_splitter = 3"
    and pc: "partition_column managed_splitter = None"
    and ex: "exclude_from_test managed_splitter = default_exclude_from_test"
    by blast
  have r: "0 < fold_count managed_splitter" and k3: "3 \<le> fold_count managed_splitter"
    and ok: "plain_column (partition_column managed_splitter)"
    using k pc by (simp_all add: plain_column_def)
  from wf have "splits managed_splitter = Some sp" "val_folds managed_splitter = Some val"
    by (simp_all add: well_fitted_def)
  then have sp: "sp = [[IntV 0, IntV 1], [IntV 2, IntV 3], [IntV 4]]" and val: "val = [1, 2, 0]"
    by (simp_all add: managed_splitter_def by_row_fitted_def by_row_partitioned_def)
  from getitem_result[OF wf r k3 ok, of rejecting_engine] obtain tr va te where
    g: "getitem rejecting_engine managed_splitter 0 = Inr (tr, va, te)"
    and B: "elements_of managed_splitter va = set (sp ! (val ! 0))"
    and C: "elements_of managed_splitter te
              = set (sp ! 0) - set (exclude_from_test managed_splitter)"
    by blast
  from B have "elements_of managed_splitter va = {IntV 2, IntV 3}"
    by (simp add: sp val)
  moreover from C have "elements_of managed_splitter te = {IntV 0, IntV 1}"
    by (simp add: sp ex default_exclude_from_test_def)
  ultimately show ?thesis using g by blast
qed

text \<open>Claim C10 on run 0 of the manager of the five-row table, with the stand-in scaler
  that leaves a table as it is: the splitter returns the rows 2 and 3 second (validation)
  and the rows 0 and 1 third (test); the manager returns them the other way round.\<close>

theorem get_partition_order_witness:
  "\<exists>tr va te.
     getitem rejecting_engine (dm_splitter toy_manager) 0 = Inr (tr, va, te) \<and>
     get_partition rejecting_engine toy_ops toy_manager 0
       = Inr ((tr, te, va),
              toy_manager\<lparr>target_processor :=
                \<lparr>cls = MinMaxScaling, tp_fitted = Some True, minmax = Some ()\<rparr>\<rparr>) \<and>
     elements_of (dm_splitter toy_manager) va = {IntV 2, IntV 3} \<and>
     elements_of (dm_splitter toy_manager) te = {IntV 0, IntV 1}"
proof -
  let ?p = "\<lparr>cls = MinMaxScaling, tp_fitted = Some True, minmax = Some ()\<rparr>"
  have s: "dm_splitter toy_manager = managed_splitter" by (simp add: toy_manager_def)
  have t: "target_processor toy_manager = MinMaxScaling_init ()" by (simp add: toy_manager_def)
  from getitem_managed_0 obtain tr va te where
    g: "getitem rejecting_engine (dm_splitter toy_manager) 0 = Inr (tr, va, te)"
    and va: "elements_of (dm_splitter toy_manager) va = {IntV 2, IntV 3}"
    and te: "elements_of (dm_splitter toy_manager) te = {IntV 0, IntV 1}"
    unfolding s by blast
  have f: "tp_fit toy_ops (target_processor toy_manager) tr = Inr ?p"
    unfolding t by (rule tp_fit_toy)
  have "\<exists>train val test p.
        getitem rejecting_engine (dm_splitter toy_manager) 0 = Inr (train, val, test) \<and>
        tp_fit toy_ops (target_processor toy_manager) train = Inr p \<and>
        transform toy_ops p train = Inr tr \<and>
        transform toy_ops p test = Inr te \<and>
        transform toy_ops p val = Inr va \<and>
        toy_manager\<lparr>target_processor := ?p\<rparr> = toy_manager\<lparr>target_processor := p\<rparr>"
    apply (rule exI[of _ tr])
    apply (rule exI[of _ va])
    apply (rule exI[of _ te])
    apply (rule exI[of _ ?p])
    apply (intro conjI)
         apply (rule g)
        apply (rule f)
       apply (rule transform_toy)
      apply (rule transform_toy)
     apply (rule transform_toy)
    apply (rule refl)
    done
  then have "get_partition rejecting_engine toy_ops toy_manager 0
       = Inr ((tr, te, va), toy_manager\<lparr>target_processor := ?p\<rparr>)"
    by (rule get_partition_order[THEN iffD2])
  with g va te show ?thesis by blast
qed

section \<open>Reconciling the featurized drugs\<close>

text \<open>The warning of \<open>get_drugs\<close> names the identifiers of the mapping that were not
  requested.\<close>

lemma get_drugs_warnings:
  assumes "get_drugs m fs = Inr (drug_dict, fs', ws)"
    and "ppl_get_drugs (ppl m) = Inr smiles"
  shows "ws = (if fst ` set drug_dict \<subseteq> fst ` set (rows smiles) then []
               else [RuntimeWarning (fst ` set drug_dict - fst ` set (rows smiles))])"
  using assms
  unfolding get_drugs_def
  by (auto simp: and_then_Inr Let_def split: option.splits if_splits)

text \<open>
  Claim C7 at a concrete input. The pipeline requests the drugs 1 and 2 and the
  featurizer represents drug 1 only, so the requested identifiers without those of the
  mapping are \<open>{2}\<close>. With no cache file, \<open>get_drugs\<close> returns the partial mapping and
  issues no warning: it subtracts the requested identifiers from those of the mapping,
  which leaves nothing. With a cache file that holds the drugs 1 and 3, it warns, naming
  drug 3, which was not requested, and not drug 2, which is the one without a
  representation.
\<close>

theorem get_drugs_misses_unreachable:
  "get_drugs toy_manager no_cache
     = Inr ([(IntV 1, 7)],
            no_cache\<lparr>stored := [''data/processed/toy_fp.pt'' \<mapsto> [(IntV 1, 7)]]\<rparr>, []) \<and>
   set (map fst (rows toy_smiles)) - set (map fst [(IntV 1, 7::nat)]) = {IntV 2} \<and>
   get_drugs toy_manager toy_cache
     = Inr ([(IntV 1, 7), (IntV 3, 9)], toy_cache, [RuntimeWarning {IntV 3}]) \<and>
   set (map fst (rows toy_smiles)) - set (map fst [(IntV 1, 7::nat), (IntV 3, 9)]) = {IntV 2}"
proof -
  have p: "ppl_get_drugs (ppl toy_manager) = Inr toy_smiles"
    "ppl_str (ppl toy_manager) = Inr ''toy''"
    "featurizer_str (dm_drug_featurizer toy_manager) = Inr ''fp''"
    "featurize (dm_drug_featurizer toy_manager) xs ys = Inr [(IntV 1, 7)]" for xs ys
    by (simp_all add: toy_manager_def toy_pipeline_def toy_featurizer_def)
  have fc: "first_column toy_smiles = Inr [StrV ''CCO'', StrV ''no smiles'']"
    by (simp add: first_column_def toy_smiles_def)
  have ids: "fst ` set (rows toy_smiles) = {IntV 1, IntV 2}"
    by (simp add: toy_smiles_def)
  have a: "get_drugs toy_manager no_cache
     = Inr ([(IntV 1, 7)],
            no_cache\<lparr>stored := [''data/processed/toy_fp.pt'' \<mapsto> [(IntV 1, 7)]]\<rparr>, [])"
    unfolding get_drugs_def by (simp add: p fc ids Let_def no_cache_def torch_save_def)
  have b: "set (map fst (rows toy_smiles)) - set (map fst [(IntV 1, 7::nat)]) = {IntV 2}"
    using ids by auto
  have d: "{IntV 1, IntV 3} - {IntV 1, IntV 2} = {IntV 3}" by auto
  have c: "get_drugs toy_manager toy_cache
     = Inr ([(IntV 1, 7), (IntV 3, 9)], toy_cache, [RuntimeWarning {IntV 3}])"
    unfolding get_drugs_def by (simp add: p ids Let_def toy_cache_def d)
  have e: "set (map fst (rows toy_smiles)) - set (map fst [(IntV 1, 7::nat), (IntV 3, 9)])
             = {IntV 2}"
    using ids by auto
  from a b c e show ?thesis by (intro conjI)
qed

section \<open>Calls out of order\<close>

text \<open>
  Claim C8 at concrete inputs. A splitter as \<open>__init__\<close> leaves it has no attribute
  \<open>fitted\<close>, and neither has a new \<open>LogMinMaxScaling\<close> or \<open>MinMaxScaling\<close> object: indexing
  the splitter, or transforming with the processor, before \<open>fit\<close> evaluates the asserted
  expression \<open>self.fitted\<close> and raises \<open>AttributeError\<close>; the assertion and its message
  are not reached. A base \<open>TargetPipeline\<close> object, and \<open>get_folds\<close> before
  \<open>get_partitions\<close>, do fail by their assertion.
\<close>

theorem precondition_failures:
  "Splitter_init toy_table 3 None default_seed [IntV 0] = Inr by_row \<and>
   getitem engine by_row 0 = Inl (AttributeError ''fitted'') \<and>
   transform ops (LogMinMaxScaling_init m0) x = Inl (AttributeError ''fitted'') \<and>
   transform ops (MinMaxScaling_init m0) x = Inl (AttributeError ''fitted'') \<and>
   transform ops TargetPipeline_init x
     = Inl (AssertionError ''You are trying to transform data using a non-fitted processor'') \<and>
   get_folds default_rng by_row
     = Some (Inl (AssertionError ''The data was not partitioned yet''))"
proof -
  have "getitem engine by_row 0 = Inl (AttributeError ''fitted'')"
    by (simp add: getitem_def by_row_def)
  moreover have "transform ops (LogMinMaxScaling_init m0) x = Inl (AttributeError ''fitted'')"
    by (simp add: transform_def LogMinMaxScaling_init_def)
  moreover have "transform ops (MinMaxScaling_init m0) x = Inl (AttributeError ''fitted'')"
    by (simp add: transform_def MinMaxScaling_init_def)
  moreover have "transform ops TargetPipeline_init x
     = Inl (AssertionError ''You are trying to transform data using a non-fitted processor'')"
    by (simp add: transform_def TargetPipeline_init_def)
  moreover have "get_folds default_rng by_row
     = Some (Inl (AssertionError ''The data was not partitioned yet''))"
    by (simp add: get_folds_def by_row_def)
  ultimately show ?thesis using Splitter_init_by_row by (intro conjI)
qed

end
